theory Spec2Isabelle
  imports Main "HOL-Library.Word" "HOL-Library.Sublist"
begin

unbundle bit_operations_syntax

section \<open>JavaScript values used by SocketAsync.js\<close>

text \<open>
  A Buffer is a list of bytes. A JavaScript string is a list of UTF-16 code units,
  so that \<open>s.length\<close> is \<open>length s\<close>, while \<open>Buffer.from(s).length\<close> is the
  length of the UTF-8 encoding of \<open>s\<close>. \<open>js\<close> turns an ASCII literal into such a string.
\<close>

type_synonym byte = "8 word"
type_synonym code_unit = "16 word"
type_synonym jsstring = "code_unit list"

definition js :: "string \<Rightarrow> jsstring" where
  "js s = map of_char s"

text \<open>
  The error objects the file can see. \<open>ProxyError\<close> is the class of lines 22-27; the
  others are the built-in classes: \<open>Error\<close> (also what the stream reports),
  \<open>RangeError\<close> (thrown by \<open>new Array(n)\<close> for negative \<open>n\<close>) and the
  \<open>AssertionError\<close> of \<open>assert\<close>.
\<close>

datatype error_class = Error | RangeError | AssertionError | ProxyError

datatype js_error = JsError (cls: error_class) (message: jsstring)

fun class_name :: "error_class \<Rightarrow> jsstring" where
  "class_name Error = js ''Error''"
| "class_name RangeError = js ''RangeError''"
| "class_name AssertionError = js ''AssertionError''"
| "class_name ProxyError = js ''ProxyError''"

text \<open>
  \<open>String(e)\<close> for an error object: \<open>Error.prototype.toString\<close> gives the name alone
  when the message is empty and \<open>name: message\<close> otherwise (the name is never empty
  here); an \<open>AssertionError\<close> prints its code between the two.
\<close>

fun error_toString :: "js_error \<Rightarrow> jsstring" where
  "error_toString (JsError AssertionError m) =
     js ''AssertionError [ERR_ASSERTION]: '' @ m"
| "error_toString (JsError c m) =
     (if m = [] then class_name c else class_name c @ js '': '' @ m)"

section \<open>The connection object and the stream's notifications\<close>

text \<open>
  The fields of a \<open>SocketAsync\<close>: the receive buffer \<open>chunks\<close> and the terminal
  \<open>error\<close> of the constructor (lines 55-56), and what the object has asked of the
  underlying \<open>net.Socket\<close>: the idle-timeout value last passed to \<open>setTimeout\<close>
  (\<open>None\<close> is \<open>undefined\<close>), whether \<open>destroy\<close> was called, the buffers written
  and the connects issued, both oldest first. These four record the requests, whether
  or not the stream honours them (a destroyed stream ignores \<open>setTimeout\<close>); no
  property below depends on the timeout value.
\<close>

record socket =
  chunks :: "byte list"
  error :: "js_error option"
  timeout :: "nat option"
  destroyed :: bool
  written :: "byte list list"
  connects :: "(jsstring \<times> nat) list"

definition new_socket :: socket where
  "new_socket = \<lparr>chunks = [], error = None, timeout = None, destroyed = False,
     written = [], connects = []\<rparr>"

definition setTimeout :: "nat \<Rightarrow> socket \<Rightarrow> socket" where
  "setTimeout t s = s\<lparr>timeout := Some t\<rparr>"

definition destroy :: "socket \<Rightarrow> socket" where
  "destroy s = s\<lparr>destroyed := True\<rparr>"

definition socket_write :: "byte list \<Rightarrow> socket \<Rightarrow> socket" where
  "socket_write b s = s\<lparr>written := written s @ [b]\<rparr>"

definition socket_connect :: "jsstring \<Rightarrow> nat \<Rightarrow> socket \<Rightarrow> socket" where
  "socket_connect h p s = s\<lparr>connects := connects s @ [(h, p)]\<rparr>"

datatype event =
    OnConnect
  | OnData "byte list"
  | OnTimeout
  | OnError js_error
  | OnEnd
  | OnClose

definition set_error_once :: "js_error \<Rightarrow> socket \<Rightarrow> socket" where
  "set_error_once e s = (if error s = None then s\<lparr>error := Some e\<rparr> else s)"

text \<open>The listeners the constructor installs (lines 58-88); they run before any other.\<close>

fun on_event :: "event \<Rightarrow> socket \<Rightarrow> socket" where
  "on_event (OnData d) s = s\<lparr>chunks := chunks s @ d\<rparr>"
| "on_event OnTimeout s = destroy (set_error_once (JsError Error (js ''ESOCKETTIMEOUT'')) s)"
| "on_event (OnError e) s = destroy (set_error_once e s)"
| "on_event OnEnd s = destroy (set_error_once (JsError Error (js ''EENDFIN'')) s)"
| "on_event OnClose s = set_error_once (JsError Error (js ''ESOCKETCLOSED'')) s"
| "on_event OnConnect s = s"

text \<open>
  A promise of the file, run against the notifications still to come: it resolves or
  rejects, leaving the object and the notifications not yet delivered, or it is still
  pending when the notifications are used up.
\<close>

datatype 'a outcome =
    Resolved 'a socket "event list"
  | Rejected js_error socket "event list"
  | Pending socket

definition await :: "'a outcome \<Rightarrow> ('a \<Rightarrow> socket \<Rightarrow> event list \<Rightarrow> 'b outcome) \<Rightarrow> 'b outcome" where
  "await m k = (case m of
      Resolved x s evs \<Rightarrow> k x s evs
    | Rejected e s evs \<Rightarrow> Rejected e s evs
    | Pending s \<Rightarrow> Pending s)"

fun outcome_socket :: "'a outcome \<Rightarrow> socket" where
  "outcome_socket (Resolved x s evs) = s"
| "outcome_socket (Rejected e s evs) = s"
| "outcome_socket (Pending s) = s"

section \<open>The receive buffer\<close>

text \<open>
  \<open>Buffer.prototype.subarray(start, end)\<close>: a negative index counts from the end,
  both are clamped to the buffer, and an absent \<open>end\<close> is the length.
\<close>

definition adjustOffset :: "int \<Rightarrow> nat \<Rightarrow> nat" where
  "adjustOffset offset len =
     (if offset < 0 then nat (max 0 (offset + int len)) else min (nat offset) len)"

definition subarray :: "byte list \<Rightarrow> int \<Rightarrow> int option \<Rightarrow> byte list" where
  "subarray buf start stop =
     (let a = adjustOffset start (length buf);
          b = (case stop of None \<Rightarrow> length buf | Some e \<Rightarrow> adjustOffset e (length buf))
      in take (b - a) (drop a buf))"

text \<open>\<open>spliceChunks(start = 0, end = this.chunks.length)\<close>, lines 232-236.\<close>

definition spliceChunks :: "int option \<Rightarrow> int option \<Rightarrow> socket \<Rightarrow> byte list \<times> socket" where
  "spliceChunks start stop s =
     (let st = (case start of None \<Rightarrow> 0 | Some i \<Rightarrow> i);
          en = (case stop of None \<Rightarrow> int (length (chunks s)) | Some i \<Rightarrow> i);
          out = subarray (chunks s) st (Some en)
      in (out, s\<lparr>chunks := subarray (chunks s) 0 (Some st) @ subarray (chunks s) en None\<rparr>))"

section \<open>readAsync and readAndClearAsync\<close>

definition callback_holds :: "(byte list \<Rightarrow> bool) option \<Rightarrow> byte list \<Rightarrow> bool" where
  "callback_holds callback buf = (case callback of None \<Rightarrow> True | Some f \<Rightarrow> f buf)"

definition removeAllListeners :: "nat option \<Rightarrow> socket \<Rightarrow> socket" where
  "removeAllListeners oldTimeout s =
     setTimeout (case oldTimeout of None \<Rightarrow> 0 | Some t \<Rightarrow> t) s"

definition set_call_timeout :: "nat option \<Rightarrow> socket \<Rightarrow> socket" where
  "set_call_timeout tmo s =
     (case tmo of None \<Rightarrow> s | Some t \<Rightarrow> if t = 0 then s else setTimeout t s)"

text \<open>
  The listeners of one \<open>readAsync\<close> call (lines 144-207), fed one notification at a
  time after the constructor's listeners.
\<close>

fun read_wait ::
  "(byte list \<Rightarrow> bool) option \<Rightarrow> nat option \<Rightarrow> socket \<Rightarrow> event list \<Rightarrow> (byte list) outcome" where
  "read_wait callback oldTimeout s [] = Pending s"
| "read_wait callback oldTimeout s (ev # evs) =
     (let s' = on_event ev s in
      case ev of
        OnData d \<Rightarrow>
          if callback_holds callback (chunks s')
          then Resolved (chunks s') (removeAllListeners oldTimeout s') evs
          else read_wait callback oldTimeout s' evs
      | OnEnd \<Rightarrow> Rejected (JsError Error (js ''EENDFIN'')) (removeAllListeners oldTimeout s') evs
      | OnError e \<Rightarrow> Rejected e (removeAllListeners oldTimeout s') evs
      | OnTimeout \<Rightarrow>
          Rejected (JsError Error (js ''ESOCKETTIMEOUT'')) (removeAllListeners oldTimeout s') evs
      | OnClose \<Rightarrow>
          Rejected (JsError Error (js ''ESOCKETCLOSED'')) (removeAllListeners oldTimeout s') evs
      | OnConnect \<Rightarrow> read_wait callback oldTimeout s' evs)"

definition readAsync ::
  "(byte list \<Rightarrow> bool) option \<Rightarrow> nat option \<Rightarrow> socket \<Rightarrow> event list \<Rightarrow> (byte list) outcome" where
  "readAsync callback tmo s evs =
     (let oldTimeout = timeout s;
          s1 = set_call_timeout tmo s
      in if chunks s1 \<noteq> [] \<and> callback_holds callback (chunks s1)
         then Resolved (chunks s1) (removeAllListeners oldTimeout s1) evs
         else read_wait callback oldTimeout s1 evs)"

text \<open>
  Lines 220-224. The splice runs in the continuation of the resolved promise, before
  the next notification is delivered.
\<close>

definition readAndClearAsync ::
  "(byte list \<Rightarrow> bool) option \<Rightarrow> nat option \<Rightarrow> socket \<Rightarrow> event list \<Rightarrow> (byte list) outcome" where
  "readAndClearAsync callback tmo s evs =
     await (readAsync callback tmo s evs)
       (\<lambda>got s' evs'. Resolved got (snd (spliceChunks (Some 0) None s')) evs')"

text \<open>The bytes a run of notifications delivers.\<close>

fun received :: "event list \<Rightarrow> byte list" where
  "received [] = []"
| "received (OnData d # evs) = d @ received evs"
| "received (ev # evs) = received evs"

text \<open>The terminal condition a notification stands for, if any.\<close>

fun terminal_error :: "event \<Rightarrow> js_error option" where
  "terminal_error OnTimeout = Some (JsError Error (js ''ESOCKETTIMEOUT''))"
| "terminal_error (OnError e) = Some e"
| "terminal_error OnEnd = Some (JsError Error (js ''EENDFIN''))"
| "terminal_error OnClose = Some (JsError Error (js ''ESOCKETCLOSED''))"
| "terminal_error ev = None"

fun first_terminal :: "event list \<Rightarrow> js_error option" where
  "first_terminal [] = None"
| "first_terminal (ev # evs) =
     (case terminal_error ev of Some e \<Rightarrow> Some e | None \<Rightarrow> first_terminal evs)"

section \<open>Strings, numbers and encodings\<close>

text \<open>\<open>chunks[i]\<close>: a read past the end of a Buffer is \<open>undefined\<close>, here \<open>None\<close>.\<close>

definition nth_opt :: "'a list \<Rightarrow> nat \<Rightarrow> 'a option" where
  "nth_opt xs i = (if i < length xs then Some (xs ! i) else None)"

text \<open>\<open>Number.prototype.toString\<close> of a non-negative integer, radix 10 and radix 16.\<close>

fun number_toString :: "nat \<Rightarrow> jsstring" where
  "number_toString n =
     (if n < 10 then [of_nat (48 + n)]
      else number_toString (n div 10) @ [of_nat (48 + n mod 10)])"

definition hex_digit :: "nat \<Rightarrow> code_unit" where
  "hex_digit d = (if d < 10 then of_nat (48 + d) else of_nat (87 + d))"

fun number_toString16 :: "nat \<Rightarrow> jsstring" where
  "number_toString16 n =
     (if n < 16 then [hex_digit n]
      else number_toString16 (n div 16) @ [hex_digit (n mod 16)])"

text \<open>A byte or \<open>undefined\<close> inside a template literal.\<close>

definition template_value :: "byte option \<Rightarrow> jsstring" where
  "template_value v = (case v of None \<Rightarrow> js ''undefined'' | Some b \<Rightarrow> number_toString (unat b))"

text \<open>
  \<open>new Array(n).join('0')\<close>: \<open>n - 1\<close> zeros, the empty string for \<open>n = 0\<close>, and a
  \<open>RangeError\<close> for a negative length.
\<close>

definition array_join_zeros :: "int \<Rightarrow> js_error + jsstring" where
  "array_join_zeros n =
     (if n < 0 then Inl (JsError RangeError (js ''Invalid array length''))
      else if n = 0 then Inr []
      else Inr (replicate (nat n - 1) 0x30))"

text \<open>
  \<open>Buffer.from(str, 'hex')\<close>: one byte for each pair of hexadecimal digits, stopping
  at the first pair that is not one; an odd last character is dropped.
\<close>

definition hex_value :: "code_unit \<Rightarrow> nat option" where
  "hex_value c =
     (if 0x30 \<le> c \<and> c \<le> 0x39 then Some (unat c - 48)
      else if 0x61 \<le> c \<and> c \<le> 0x66 then Some (unat c - 87)
      else if 0x41 \<le> c \<and> c \<le> 0x46 then Some (unat c - 55)
      else None)"

fun buffer_from_hex :: "jsstring \<Rightarrow> byte list" where
  "buffer_from_hex (a # b # rest) =
     (case hex_value a of
        None \<Rightarrow> []
      | Some x \<Rightarrow>
          (case hex_value b of
             None \<Rightarrow> []
           | Some y \<Rightarrow> of_nat (16 * x + y) # buffer_from_hex rest))"
| "buffer_from_hex rest = []"

text \<open>
  \<open>Buffer.from(str)\<close>: the UTF-8 encoding of a string. A surrogate pair is one
  four-byte sequence; a surrogate on its own becomes U+FFFD (\<open>EF BF BD\<close>).
\<close>

fun utf8_encode :: "jsstring \<Rightarrow> byte list" where
  "utf8_encode [] = []"
| "utf8_encode (c # cs) =
     (let n = unat c in
      if n < 0x80 then of_nat n # utf8_encode cs
      else if n < 0x800 then
        [of_nat (0xC0 + n div 64), of_nat (0x80 + n mod 64)] @ utf8_encode cs
      else if 0xD800 \<le> n \<and> n < 0xDC00 then
        (case cs of
           [] \<Rightarrow> [0xEF, 0xBF, 0xBD]
         | d # ds \<Rightarrow>
             (let m = unat d in
              if 0xDC00 \<le> m \<and> m < 0xE000 then
                (let cp = 0x10000 + (n - 0xD800) * 1024 + (m - 0xDC00) in
                 [of_nat (0xF0 + cp div 262144), of_nat (0x80 + cp div 4096 mod 64),
                  of_nat (0x80 + cp div 64 mod 64), of_nat (0x80 + cp mod 64)]
                 @ utf8_encode ds)
              else [0xEF, 0xBF, 0xBD] @ utf8_encode cs))
      else if 0xDC00 \<le> n \<and> n < 0xE000 then [0xEF, 0xBF, 0xBD] @ utf8_encode cs
      else
        [of_nat (0xE0 + n div 4096), of_nat (0x80 + n div 64 mod 64), of_nat (0x80 + n mod 64)]
        @ utf8_encode cs)"

text \<open>\<open>buf.toString('base64')\<close>.\<close>

definition base64_char :: "nat \<Rightarrow> code_unit" where
  "base64_char i =
     js ''ABCDEFGHIJKLMNOPQRSTUVWXYZabcdefghijklmnopqrstuvwxyz0123456789+/'' ! i"

fun base64_encode :: "byte list \<Rightarrow> jsstring" where
  "base64_encode (a # b # c # rest) =
     [base64_char (unat a div 4),
      base64_char (unat a mod 4 * 16 + unat b div 16),
      base64_char (unat b mod 16 * 4 + unat c div 64),
      base64_char (unat c mod 64)] @ base64_encode rest"
| "base64_encode [a, b] =
     [base64_char (unat a div 4),
      base64_char (unat a mod 4 * 16 + unat b div 16),
      base64_char (unat b mod 16 * 4), 0x3D]"
| "base64_encode [a] =
     [base64_char (unat a div 4), base64_char (unat a mod 4 * 16), 0x3D, 0x3D]"
| "base64_encode [] = []"

text \<open>\<open>str.split(sep)\<close> for a separator of one code unit.\<close>

fun split_on :: "code_unit \<Rightarrow> jsstring \<Rightarrow> jsstring list" where
  "split_on sep [] = [[]]"
| "split_on sep (c # cs) =
     (if c = sep then [] # split_on sep cs
      else (case split_on sep cs of
              [] \<Rightarrow> [[c]]
            | p # ps \<Rightarrow> (c # p) # ps))"

text \<open>
  \<open>String.prototype.trim\<close>: the white space and line terminators of ECMAScript.
\<close>

definition is_js_whitespace :: "code_unit \<Rightarrow> bool" where
  "is_js_whitespace c =
     (c \<in> {0x09, 0x0A, 0x0B, 0x0C, 0x0D, 0x20, 0xA0, 0x1680, 0x2028, 0x2029, 0x202F,
            0x205F, 0x3000, 0xFEFF}
      \<or> (0x2000 \<le> c \<and> c \<le> 0x200A))"

definition trim :: "jsstring \<Rightarrow> jsstring" where
  "trim s = rev (dropWhile is_js_whitespace (rev (dropWhile is_js_whitespace s)))"

text \<open>
  A regular expression that is a sequence of literal characters and character classes,
  anchored at the start, with the flag \<open>i\<close>. Without the flag \<open>u\<close>, a character
  outside ASCII never matches an ASCII letter of the pattern, so comparing ASCII upper
  cases is the whole of the case folding.
\<close>

definition ascii_upper :: "code_unit \<Rightarrow> code_unit" where
  "ascii_upper c = (if 0x61 \<le> c \<and> c \<le> 0x7A then c - 0x20 else c)"

datatype regex_atom = Lit code_unit | OneOf "code_unit list"

fun atom_matches :: "regex_atom \<Rightarrow> code_unit \<Rightarrow> bool" where
  "atom_matches (Lit p) c = (ascii_upper c = ascii_upper p)"
| "atom_matches (OneOf ps) c = (ascii_upper c \<in> set (map ascii_upper ps))"

fun match_at_start :: "regex_atom list \<Rightarrow> jsstring \<Rightarrow> bool" where
  "match_at_start [] s = True"
| "match_at_start (a # as) [] = False"
| "match_at_start (a # as) (c # cs) = (atom_matches a c \<and> match_at_start as cs)"

section \<open>The platform\<close>

text \<open>
  Three built-ins of the platform are parameters of the model: the test for an IPv6
  address behind \<open>net.isIP\<close>, \<open>String.prototype.toLowerCase\<close> and the UTF-8
  decoding of \<open>buf.toString()\<close>.
\<close>

record platform =
  isIPv6 :: "jsstring \<Rightarrow> bool"
  toLowerCase :: "jsstring \<Rightarrow> jsstring"
  buffer_toString :: "byte list \<Rightarrow> jsstring"

text \<open>
  \<open>net.isIP\<close> answers 4 for an IPv4 address in dot-decimal notation with no leading
  zeroes (four segments from 0 to 255), 6 for an IPv6 address and 0 otherwise.
\<close>

definition is_digit :: "code_unit \<Rightarrow> bool" where
  "is_digit c = (0x30 \<le> c \<and> c \<le> 0x39)"

fun decimal_value :: "jsstring \<Rightarrow> nat" where
  "decimal_value s = foldl (\<lambda>acc c. 10 * acc + (unat c - 48)) 0 s"

definition v4Seg :: "jsstring \<Rightarrow> bool" where
  "v4Seg seg =
     (seg \<noteq> [] \<and> length seg \<le> 3 \<and> list_all is_digit seg
      \<and> (length seg = 1 \<or> hd seg \<noteq> 0x30) \<and> decimal_value seg \<le> 255)"

definition isIPv4 :: "jsstring \<Rightarrow> bool" where
  "isIPv4 s = (let segs = split_on 0x2E s in length segs = 4 \<and> list_all v4Seg segs)"

definition net_isIP :: "platform \<Rightarrow> jsstring \<Rightarrow> nat" where
  "net_isIP P s = (if isIPv4 s then 4 else if isIPv6 P s then 6 else 0)"

text \<open>
  An element of the array given to \<open>Buffer.from\<close>: its number, reduced to a byte. The
  elements are the segments of a host for which \<open>net.isIP\<close> answered 4, decimal
  numerals; any other string counts as \<open>NaN\<close>, which becomes 0.
\<close>

definition array_item_to_byte :: "jsstring \<Rightarrow> byte" where
  "array_item_to_byte item =
     (if item \<noteq> [] \<and> list_all is_digit item then of_nat (decimal_value item) else 0)"

section \<open>Options\<close>

text \<open>
  The argument of \<open>connectAsync\<close>; an absent property is \<open>None\<close>. The target host is
  a string and the ports are non-negative integers.
\<close>

record proxy_options =
  proxy_host :: "jsstring option"
  proxy_port :: "nat option"
  proxy_type :: "jsstring option"
  username :: "jsstring option"
  password :: "jsstring option"
  proxy_timeout :: "nat option"

record connect_options =
  host :: jsstring
  port :: nat
  connect_timeout :: "nat option"
  proxy :: "proxy_options option"

text \<open>A destructuring default: \<open>const { x = d } = obj\<close>.\<close>

definition default_to :: "'a \<Rightarrow> 'a option \<Rightarrow> 'a" where
  "default_to d v = (case v of None \<Rightarrow> d | Some x \<Rightarrow> x)"

text \<open>The result of synchronous code that may throw, as the outcome of its promise.\<close>

definition settle :: "js_error + 'a \<Rightarrow> socket \<Rightarrow> event list \<Rightarrow> 'a outcome" where
  "settle r s evs = (case r of Inl e \<Rightarrow> Rejected e s evs | Inr x \<Rightarrow> Resolved x s evs)"

section \<open>Connecting without a proxy\<close>

text \<open>The listeners of lines 248-286.\<close>

fun connect_wait :: "nat option \<Rightarrow> socket \<Rightarrow> event list \<Rightarrow> unit outcome" where
  "connect_wait oldTimeout s [] = Pending s"
| "connect_wait oldTimeout s (ev # evs) =
     (let s' = on_event ev s in
      case ev of
        OnConnect \<Rightarrow> Resolved () (removeAllListeners oldTimeout s') evs
      | OnError e \<Rightarrow> Rejected e (removeAllListeners oldTimeout s') evs
      | OnTimeout \<Rightarrow>
          Rejected (JsError Error (js ''ECONNECTTIMEOUT'')) (removeAllListeners oldTimeout s') evs
      | OnClose \<Rightarrow>
          Rejected (JsError Error (js ''ESOCKETCLOSED'')) (removeAllListeners oldTimeout s') evs
      | OnEnd \<Rightarrow> Rejected (JsError Error (js ''EENDFIN'')) (removeAllListeners oldTimeout s') evs
      | OnData d \<Rightarrow> connect_wait oldTimeout s' evs)"

definition connectWithoutProxyAsync ::
  "connect_options \<Rightarrow> socket \<Rightarrow> event list \<Rightarrow> unit outcome" where
  "connectWithoutProxyAsync options s evs =
     (let oldTimeout = timeout s;
          s1 = set_call_timeout (connect_timeout options) s;
          s2 = socket_connect (host options) (port options) s1
      in connect_wait oldTimeout s2 evs)"

section \<open>The HTTP CONNECT negotiation\<close>

definition crlf :: jsstring where
  "crlf = [0x0D, 0x0A]"

definition http_connect_header :: "jsstring \<Rightarrow> nat \<Rightarrow> jsstring \<Rightarrow> jsstring \<Rightarrow> jsstring" where
  "http_connect_header h p user pass =
     js ''CONNECT '' @ h @ js '':'' @ number_toString p @ js '' HTTP/1.1'' @ crlf
     @ js ''Connection: keep-alive'' @ crlf
     @ js ''Content-Length: 0'' @ crlf
     @ (if user \<noteq> []
        then js ''Proxy-Authorization: Basic ''
             @ base64_encode (utf8_encode (user @ js '':'' @ pass)) @ crlf
        else [])
     @ crlf"

text \<open>The pattern of line 349, \<open>/^HTTP\/1\.[01] 200/i\<close>.\<close>

definition http_200_pattern :: "regex_atom list" where
  "http_200_pattern = map Lit (js ''HTTP/1.'') @ [OneOf (js ''01'')] @ map Lit (js '' 200'')"

definition connect_failed_prefix :: jsstring where
  "connect_failed_prefix = [0x8FDE, 0x63A5, 0x76EE, 0x6807, 0x5931, 0x8D25, 0xFF1A]"

definition http_check_response :: "platform \<Rightarrow> byte list \<Rightarrow> js_error + unit" where
  "http_check_response P got =
     (let str = trim (buffer_toString P got) in
      if \<not> match_at_start http_200_pattern str
      then Inl (JsError Error (connect_failed_prefix @ str))
      else Inr ())"

definition connectHttpProxy ::
  "platform \<Rightarrow> connect_options \<Rightarrow> proxy_options \<Rightarrow> socket \<Rightarrow> event list \<Rightarrow> unit outcome" where
  "connectHttpProxy P options prox s evs =
     (let user = default_to [] (username prox);
          pass = default_to [] (password prox);
          tmo = default_to 10000 (proxy_timeout prox);
          header = http_connect_header (host options) (port options) user pass;
          s1 = socket_write (utf8_encode header) s
      in await (readAndClearAsync None (Some tmo) s1 evs)
           (\<lambda>got s2 evs2. settle (http_check_response P got) s2 evs2))"

section \<open>The SOCKS5 negotiation\<close>

text \<open>Lines 10-19; the messages are written as their UTF-16 code units.\<close>

definition ERROR_MAP :: "nat \<Rightarrow> jsstring option" where
  "ERROR_MAP = map_of
     [(1, [0x4EE3, 0x7406, 0x670D, 0x52A1, 0x5668, 0x6545, 0x969C]),
      (2, [0x4EE3, 0x7406, 0x670D, 0x52A1, 0x5668, 0x89C4, 0x5219, 0x96C6, 0x4E0D, 0x5141,
           0x8BB8, 0x8FDE, 0x63A5]),
      (3, [0x7F51, 0x7EDC, 0x65E0, 0x6CD5, 0x8BBF, 0x95EE]),
      (4, [0x76EE, 0x6807, 0x670D, 0x52A1, 0x5668, 0x65E0, 0x6CD5, 0x8BBF, 0x95EE, 0xFF08,
           0x4E3B, 0x673A, 0x540D, 0x65E0, 0x6548, 0xFF09]),
      (5, [0x8FDE, 0x63A5, 0x76EE, 0x6807, 0x670D, 0x52A1, 0x5668, 0x88AB, 0x62D2, 0x7EDD]),
      (6, [0x54, 0x54, 0x4C, 0x5DF2, 0x8FC7, 0x671F]),
      (7, [0x4E0D, 0x652F, 0x6301, 0x7684, 0x547D, 0x4EE4]),
      (8, [0x4E0D, 0x652F, 0x6301, 0x7684, 0x76EE, 0x6807, 0x670D, 0x52A1, 0x5668, 0x5730,
           0x5740, 0x7C7B, 0x578B])]"

text \<open>\<open>ERROR_MAP[chunks[1]]\<close>: the key \<open>undefined\<close> is not in the table.\<close>

definition error_map_get :: "byte option \<Rightarrow> jsstring option" where
  "error_map_get k = (case k of None \<Rightarrow> None | Some b \<Rightarrow> ERROR_MAP (unat b))"

definition unknown_error_prefix :: jsstring where
  "unknown_error_prefix =
     [0x672A, 0x77E5, 0x9519, 0x8BEF, 0xFF0C, 0x8FDE, 0x63A5, 0x76EE, 0x6807, 0x5730,
      0x5740, 0x5931, 0x8D25, 0xFF1A]"

text \<open>The greeting of line 377 and the checks of its reply, lines 379-388.\<close>

definition socks5_greeting :: "byte list" where
  "socks5_greeting = buffer_from_hex (js ''05020002'')"

definition socks5_check_greeting :: "byte list \<Rightarrow> js_error + byte option" where
  "socks5_check_greeting got =
     (if length got \<noteq> 2 then Inl (JsError Error (js ''Unexpected number of bytes received.''))
      else if nth_opt got 0 \<noteq> Some 0x05
      then Inl (JsError Error
             (js ''Unexpected socks version number: '' @ template_value (nth_opt got 0) @ js ''.''))
      else (let authType = nth_opt got 1 in
            if authType \<notin> {Some 0x00, Some 0x02}
            then Inl (JsError Error
                   (js ''Unexpected socks authentication method: '' @ template_value authType))
            else Inr authType))"

text \<open>The user name and password message of lines 392-397 and the checks of lines 401-409.\<close>

definition socks5_auth_info :: "jsstring \<Rightarrow> jsstring \<Rightarrow> byte list" where
  "socks5_auth_info user pass =
     [0x01, of_nat (length (utf8_encode user))] @ utf8_encode user
     @ [of_nat (length pass)] @ utf8_encode pass"

definition socks5_check_auth :: "byte list \<Rightarrow> js_error + unit" where
  "socks5_check_auth got =
     (if length got \<noteq> 2 then Inl (JsError Error (js ''Unexpected number of bytes received.''))
      else if nth_opt got 0 \<noteq> Some 0x01
      then Inl (JsError Error
             (js ''Unexpected authentication method code: '' @ template_value (nth_opt got 0)
              @ js ''.''))
      else if nth_opt got 1 \<noteq> Some 0x00
      then Inl (JsError Error
             (js ''Username and password authentication failure: ''
              @ template_value (nth_opt got 1) @ js ''.''))
      else Inr ())"

text \<open>
  The request for the target, lines 413-459. \<open>zero_pad4\<close> is
  \<open>new Array(4 - hex.length + 1).join('0') + hex\<close>.
\<close>

definition zero_pad4 :: "jsstring \<Rightarrow> js_error + jsstring" where
  "zero_pad4 hex =
     (case array_join_zeros (4 - int (length hex) + 1) of
        Inl e \<Rightarrow> Inl e
      | Inr zeros \<Rightarrow> Inr (zeros @ hex))"

fun ipv6_items :: "jsstring list \<Rightarrow> js_error + byte list list" where
  "ipv6_items [] = Inr []"
| "ipv6_items (item # items) =
     (case zero_pad4 item of
        Inl e \<Rightarrow> Inl e
      | Inr hex \<Rightarrow>
          (case ipv6_items items of
             Inl e \<Rightarrow> Inl e
           | Inr bufs \<Rightarrow> Inr (buffer_from_hex hex # bufs)))"

definition socks5_target_info :: "platform \<Rightarrow> jsstring \<Rightarrow> nat \<Rightarrow> js_error + byte list" where
  "socks5_target_info P h p =
     (let targetInfo = buffer_from_hex (js ''050100'');
          targetType = net_isIP P h;
          hexPort = number_toString16 p
      in case (if length hexPort < 4 then zero_pad4 hexPort else Inr hexPort) of
           Inl e \<Rightarrow> Inl e
         | Inr paddedPort \<Rightarrow>
             (let bufPort = buffer_from_hex paddedPort in
              if targetType = 4
              then Inr (targetInfo @ [0x01] @ map array_item_to_byte (split_on 0x2E h) @ bufPort)
              else if targetType = 0
              then Inr (targetInfo @ [0x03, of_nat (length (utf8_encode h))] @ utf8_encode h
                        @ bufPort)
              else if targetType = 6
              then (case ipv6_items (split_on 0x3A h) of
                      Inl e \<Rightarrow> Inl e
                    | Inr bufs \<Rightarrow> Inr (targetInfo @ [0x04] @ concat bufs @ bufPort))
              else Inl (JsError Error (js ''Not support target host: '' @ h))))"

text \<open>The checks of the reply to the request, lines 463-471.\<close>

definition socks5_check_reply :: "jsstring \<Rightarrow> byte list \<Rightarrow> js_error + unit" where
  "socks5_check_reply h got =
     (if nth_opt got 0 \<noteq> Some 0x05
      then Inl (JsError Error
             (js ''Unexpected SOCKS version number: '' @ template_value (nth_opt got 0) @ js ''.''))
      else if nth_opt got 1 \<noteq> Some 0x00
      then (case error_map_get (nth_opt got 1) of
              None \<Rightarrow> Inl (JsError Error (unknown_error_prefix @ h))
            | Some m \<Rightarrow>
                if m \<noteq> [] then Inl (JsError Error m)
                else Inl (JsError Error (unknown_error_prefix @ h)))
      else Inr ())"

text \<open>The three exchanges of \<open>_connectSocks5Proxy\<close>, the last one first.\<close>

definition socks5_request ::
  "platform \<Rightarrow> connect_options \<Rightarrow> nat \<Rightarrow> socket \<Rightarrow> event list \<Rightarrow> unit outcome" where
  "socks5_request P options tmo s evs =
     (case socks5_target_info P (host options) (port options) of
        Inl e \<Rightarrow> Rejected e s evs
      | Inr targetInfo \<Rightarrow>
          await (readAndClearAsync None (Some tmo) (socket_write targetInfo s) evs)
            (\<lambda>got s' evs'. settle (socks5_check_reply (host options) got) s' evs'))"

definition socks5_auth ::
  "jsstring \<Rightarrow> jsstring \<Rightarrow> nat \<Rightarrow> socket \<Rightarrow> event list \<Rightarrow> unit outcome" where
  "socks5_auth user pass tmo s evs =
     await (readAndClearAsync None (Some tmo) (socket_write (socks5_auth_info user pass) s) evs)
       (\<lambda>got s' evs'. settle (socks5_check_auth got) s' evs')"

definition connectSocks5Proxy ::
  "platform \<Rightarrow> connect_options \<Rightarrow> proxy_options \<Rightarrow> socket \<Rightarrow> event list \<Rightarrow> unit outcome" where
  "connectSocks5Proxy P options prox s evs =
     (let user = default_to [] (username prox);
          pass = default_to [] (password prox);
          tmo = default_to 10000 (proxy_timeout prox)
      in await (readAndClearAsync None (Some tmo) (socket_write socks5_greeting s) evs)
           (\<lambda>got s1 evs1.
              case socks5_check_greeting got of
                Inl e \<Rightarrow> Rejected e s1 evs1
              | Inr authType \<Rightarrow>
                  if authType = Some 0x02
                  then await (socks5_auth user pass tmo s1 evs1)
                         (\<lambda>u s2 evs2. socks5_request P options tmo s2 evs2)
                  else socks5_request P options tmo s1 evs1))"

section \<open>connectAsync\<close>

text \<open>
  The body of the \<open>try\<close> of \<open>_connectWithProxyAsync\<close>, lines 308-323. The options it
  hands to \<open>connectAsync\<close> have no proxy, so that call is \<open>_connectWithoutProxyAsync\<close>.
\<close>

definition proxy_attempt ::
  "platform \<Rightarrow> connect_options \<Rightarrow> proxy_options \<Rightarrow> socket \<Rightarrow> event list \<Rightarrow> unit outcome" where
  "proxy_attempt P options prox s evs =
     (let tmo = default_to 10000 (proxy_timeout prox);
          ptype = toLowerCase P
                    (case proxy_type prox of
                       None \<Rightarrow> js ''socks5''
                     | Some ty \<Rightarrow> if ty = [] then js ''socks5'' else ty)
      in if ptype \<notin> {js ''socks5'', js ''http''}
         then Rejected (JsError AssertionError (js ''The proxy type must be socks5 or http.'')) s evs
         else case proxy_host prox of
           None \<Rightarrow> Rejected (JsError AssertionError (js ''options.proxy.host is required.'')) s evs
         | Some ph \<Rightarrow>
             if ph = []
             then Rejected (JsError AssertionError (js ''options.proxy.host is required.'')) s evs
             else case proxy_port prox of
               None \<Rightarrow>
                 Rejected (JsError AssertionError (js ''options.proxy.port is required.'')) s evs
             | Some pp \<Rightarrow>
                 if pp = 0
                 then Rejected (JsError AssertionError (js ''options.proxy.port is required.''))
                        s evs
                 else await
                        (connectWithoutProxyAsync
                           \<lparr>host = ph, port = pp, connect_timeout = Some tmo, proxy = None\<rparr> s evs)
                        (\<lambda>u s1 evs1.
                           if ptype = js ''socks5''
                           then connectSocks5Proxy P options prox s1 evs1
                           else connectHttpProxy P options prox s1 evs1))"

text \<open>The \<open>catch\<close> of lines 324-327: \<open>new ProxyError(e)\<close> has the message \<open>String(e)\<close>.\<close>

definition connectWithProxyAsync ::
  "platform \<Rightarrow> connect_options \<Rightarrow> proxy_options \<Rightarrow> socket \<Rightarrow> event list \<Rightarrow> unit outcome" where
  "connectWithProxyAsync P options prox s evs =
     (case proxy_attempt P options prox s evs of
        Rejected e s' evs' \<Rightarrow> Rejected (JsError ProxyError (error_toString e)) s' evs'
      | Resolved u s' evs' \<Rightarrow> Resolved u s' evs'
      | Pending s' \<Rightarrow> Pending s')"

definition connectAsync ::
  "platform \<Rightarrow> connect_options \<Rightarrow> socket \<Rightarrow> event list \<Rightarrow> unit outcome" where
  "connectAsync P options s evs =
     (case proxy options of
        Some prox \<Rightarrow> connectWithProxyAsync P options prox s evs
      | None \<Rightarrow> connectWithoutProxyAsync options s evs)"

section \<open>Notions of the specification\<close>

text \<open>
  Section 4.4 of the specification asks that the response start with a given text,
  ignoring the case of letters.
\<close>

definition starts_with_ignoring_case :: "jsstring \<Rightarrow> jsstring \<Rightarrow> bool" where
  "starts_with_ignoring_case p s =
     (length p \<le> length s \<and> map ascii_upper (take (length p) s) = map ascii_upper p)"

text \<open>
  Section 3 of the specification has the target address as a tagged variant, and
  section 8 compares the encoding of a target with the reverse parse that a proxy
  performs: version 5, command 1, a reserved byte, the address type, the address (for a
  domain, its length in one byte first) and the port in two bytes, high byte first.
\<close>

datatype target_address = IPv4 "byte list" | Domain "byte list" | IPv6 "byte list"

definition port_of_bytes :: "byte list \<Rightarrow> nat" where
  "port_of_bytes bs = (case bs of [hi, lo] \<Rightarrow> 256 * unat hi + unat lo | _ \<Rightarrow> 0)"

definition socks5_parse_request :: "byte list \<Rightarrow> (target_address \<times> nat) option" where
  "socks5_parse_request req =
     (case req of
        v # c # r # atyp # rest \<Rightarrow>
          if v \<noteq> 0x05 \<or> c \<noteq> 0x01 \<or> r \<noteq> 0x00 then None
          else if atyp = 0x01 then
            (if length rest = 6
             then Some (IPv4 (take 4 rest), port_of_bytes (drop 4 rest)) else None)
          else if atyp = 0x03 then
            (case rest of
               [] \<Rightarrow> None
             | n # name_port \<Rightarrow>
                 if length name_port = unat n + 2
                 then Some (Domain (take (unat n) name_port),
                            port_of_bytes (drop (unat n) name_port))
                 else None)
          else if atyp = 0x04 then
            (if length rest = 18
             then Some (IPv6 (take 16 rest), port_of_bytes (drop 16 rest)) else None)
          else None
      | _ \<Rightarrow> None)"

text \<open>
  The host a parsed address stands for: the dotted quad of four bytes, the string that
  UTF-8 bytes encode, and for sixteen bytes the eight groups, each the hexadecimal
  numeral of its value.
\<close>

fun join_with :: "code_unit \<Rightarrow> jsstring list \<Rightarrow> jsstring" where
  "join_with sep [] = []"
| "join_with sep [x] = x"
| "join_with sep (x # y # ys) = x @ sep # join_with sep (y # ys)"

definition ipv4_to_string :: "byte list \<Rightarrow> jsstring" where
  "ipv4_to_string bs = join_with 0x2E (map (\<lambda>b. number_toString (unat b)) bs)"

fun group_values :: "byte list \<Rightarrow> nat list" where
  "group_values (hi # lo # rest) = (256 * unat hi + unat lo) # group_values rest"
| "group_values rest = []"

definition ipv6_to_string :: "byte list \<Rightarrow> jsstring" where
  "ipv6_to_string bs = join_with 0x3A (map number_toString16 (group_values bs))"

fun utf8_decode :: "byte list \<Rightarrow> jsstring option" where
  "utf8_decode [] = Some []"
| "utf8_decode (b # bs) =
     (let n = unat b in
      if n < 0x80 then map_option ((#) (of_nat n)) (utf8_decode bs)
      else if n < 0xC0 then None
      else if n < 0xE0 then
        (case bs of
           b1 # rest \<Rightarrow>
             map_option ((#) (of_nat ((n - 0xC0) * 64 + (unat b1 - 0x80)))) (utf8_decode rest)
         | _ \<Rightarrow> None)
      else if n < 0xF0 then
        (case bs of
           b1 # b2 # rest \<Rightarrow>
             map_option
               ((#) (of_nat ((n - 0xE0) * 4096 + (unat b1 - 0x80) * 64 + (unat b2 - 0x80))))
               (utf8_decode rest)
         | _ \<Rightarrow> None)
      else
        (case bs of
           b1 # b2 # b3 # rest \<Rightarrow>
             (let cp = (n - 0xF0) * 262144 + (unat b1 - 0x80) * 4096 + (unat b2 - 0x80) * 64
                       + (unat b3 - 0x80)
              in map_option
                   (\<lambda>units. of_nat (0xD800 + (cp - 0x10000) div 1024)
                             # of_nat (0xDC00 + (cp - 0x10000) mod 1024) # units)
                   (utf8_decode rest))
         | _ \<Rightarrow> None))"

text \<open>A string of UTF-16 code units in which every surrogate is half of a pair.\<close>

fun well_formed_utf16 :: "jsstring \<Rightarrow> bool" where
  "well_formed_utf16 [] = True"
| "well_formed_utf16 (c # cs) =
     (if 0xD800 \<le> unat c \<and> unat c < 0xDC00 then
        (case cs of
           [] \<Rightarrow> False
         | d # ds \<Rightarrow> 0xDC00 \<le> unat d \<and> unat d < 0xE000 \<and> well_formed_utf16 ds)
      else if 0xDC00 \<le> unat c \<and> unat c < 0xE000 then False
      else well_formed_utf16 cs)"

text \<open>The value of a group of hexadecimal digits.\<close>

definition hex_number :: "jsstring \<Rightarrow> nat" where
  "hex_number g = foldl (\<lambda>acc c. 16 * acc + (case hex_value c of None \<Rightarrow> 0 | Some d \<Rightarrow> d)) 0 g"

section \<open>An example call\<close>

text \<open>
  The call of the README, \<open>google.com:443\<close> through a proxy at \<open>127.0.0.1:1086\<close>,
  on a platform that lowers ASCII letters, decodes ASCII bytes and takes for IPv6
  addresses the strings of eight groups of one to four hexadecimal digits.
\<close>

definition hex_group :: "jsstring \<Rightarrow> bool" where
  "hex_group g = (g \<noteq> [] \<and> length g \<le> 4 \<and> list_all (\<lambda>c. hex_value c \<noteq> None) g)"

definition ipv6_full_form :: "jsstring \<Rightarrow> bool" where
  "ipv6_full_form s =
     (let groups = split_on 0x3A s in length groups = 8 \<and> list_all hex_group groups)"

definition ascii_lower :: "code_unit \<Rightarrow> code_unit" where
  "ascii_lower c = (if 0x41 \<le> c \<and> c \<le> 0x5A then c + 0x20 else c)"

definition example_platform :: platform where
  "example_platform =
     \<lparr>isIPv6 = ipv6_full_form, toLowerCase = map ascii_lower, buffer_toString = map ucast\<rparr>"

definition example_proxy :: proxy_options where
  "example_proxy =
     \<lparr>proxy_host = Some (js ''127.0.0.1''), proxy_port = Some 1086, proxy_type = None,
      username = None, password = None, proxy_timeout = None\<rparr>"

definition example_options :: connect_options where
  "example_options =
     \<lparr>host = js ''google.com'', port = 443, connect_timeout = Some 5000,
      proxy = Some example_proxy\<rparr>"

section \<open>Properties of the receive buffer\<close>

lemma adjustOffset_in_range:
  "0 \<le> a \<Longrightarrow> a \<le> int n \<Longrightarrow> adjustOffset a n = nat a"
  unfolding adjustOffset_def by auto

lemma subarray_in_range:
  assumes "0 \<le> a" "a \<le> b" "b \<le> int (length X)"
  shows "subarray X a (Some b) = take (nat b - nat a) (drop (nat a) X)"
proof -
  have "a \<le> int (length X)" using assms by linarith
  then show ?thesis
    using assms by (simp add: subarray_def Let_def adjustOffset_in_range)
qed

lemma subarray_prefix:
  assumes "0 \<le> a" "a \<le> int (length X)"
  shows "subarray X 0 (Some a) = take (nat a) X"
  using assms by (simp add: subarray_def Let_def adjustOffset_in_range)

lemma subarray_suffix:
  assumes "0 \<le> b" "b \<le> int (length X)"
  shows "subarray X b None = drop (nat b) X"
  using assms by (simp add: subarray_def Let_def adjustOffset_in_range)

text \<open>
  C7. For a buffer \<open>X\<close> and indices \<open>0 \<le> s \<le> e \<le> length X\<close>, \<open>spliceChunks(s, e)\<close>
  returns the bytes of \<open>X\<close> from \<open>s\<close> up to but not including \<open>e\<close>, leaves the buffer
  equal to the bytes before \<open>s\<close> followed by the bytes from \<open>e\<close> on, and putting the
  returned bytes back between those two parts gives \<open>X\<close> again.
\<close>

theorem spliceChunks_round_trip:
  assumes "0 \<le> st" and "st \<le> en" and "en \<le> int (length (chunks s))"
  shows "fst (spliceChunks (Some st) (Some en) s)
           = take (nat en - nat st) (drop (nat st) (chunks s))
       \<and> chunks (snd (spliceChunks (Some st) (Some en) s))
           = take (nat st) (chunks s) @ drop (nat en) (chunks s)
       \<and> take (nat st) (chunks s) @ fst (spliceChunks (Some st) (Some en) s)
           @ drop (nat en) (chunks s) = chunks s"
proof -
  let ?X = "chunks s"
  have out: "fst (spliceChunks (Some st) (Some en) s) = take (nat en - nat st) (drop (nat st) ?X)"
    using assms by (simp add: spliceChunks_def Let_def subarray_in_range)
  have rest: "chunks (snd (spliceChunks (Some st) (Some en) s))
                = take (nat st) ?X @ drop (nat en) ?X"
    using assms by (simp add: spliceChunks_def Let_def subarray_prefix subarray_suffix)
  have "take (nat en - nat st) (drop (nat st) ?X) @ drop (nat en) ?X = drop (nat st) ?X"
  proof -
    have "drop (nat en) ?X = drop (nat en - nat st) (drop (nat st) ?X)"
      using assms by (simp add: nat_le_eq_zle)
    then show ?thesis by (simp only: append_take_drop_id)
  qed
  then have "take (nat st) ?X @ take (nat en - nat st) (drop (nat st) ?X) @ drop (nat en) ?X = ?X"
    by simp
  with out rest show ?thesis by simp
qed

theorem spliceChunks_round_trip_witness:
  "fst (spliceChunks (Some 1) (Some 3) (new_socket\<lparr>chunks := [10, 20, 30, 40]\<rparr>)) = [20, 30]
   \<and> chunks (snd (spliceChunks (Some 1) (Some 3) (new_socket\<lparr>chunks := [10, 20, 30, 40]\<rparr>)))
       = [10, 40]"
  using spliceChunks_round_trip [of 1 3 "new_socket\<lparr>chunks := [10, 20, 30, 40]\<rparr>"]
  by (simp add: new_socket_def)

lemma spliceChunks_all:
  "spliceChunks (Some 0) None s = (chunks s, s\<lparr>chunks := []\<rparr>)"
  by (simp add: spliceChunks_def Let_def subarray_def adjustOffset_def)

section \<open>Properties of reading\<close>

lemma chunks_removeAllListeners [simp]: "chunks (removeAllListeners old s) = chunks s"
  by (simp add: removeAllListeners_def setTimeout_def)

lemma chunks_set_call_timeout [simp]: "chunks (set_call_timeout t s) = chunks s"
  by (simp add: set_call_timeout_def setTimeout_def split: option.splits)

lemma read_wait_resolved:
  "read_wait callback old s evs = Resolved got s' evs' \<Longrightarrow>
   \<exists>consumed. evs = consumed @ evs' \<and> got = chunks s @ received consumed \<and> chunks s' = got
      \<and> callback_holds callback got"
proof (induction evs arbitrary: s)
  case Nil
  then show ?case by simp
next
  case (Cons ev evs)
  show ?case
  proof (cases ev)
    case (OnData d)
    show ?thesis
    proof (cases "callback_holds callback (chunks s @ d)")
      case True
      with Cons.prems OnData
      have "got = chunks s @ d" "chunks s' = chunks s @ d" "evs' = evs"
        by (auto simp add: Let_def)
      with OnData True show ?thesis
        by (intro exI [of _ "[ev]"]) simp
    next
      case False
      with Cons.prems OnData
      have "read_wait callback old (on_event ev s) evs = Resolved got s' evs'"
        by (simp add: Let_def)
      from Cons.IH [OF this] obtain consumed where
        c: "evs = consumed @ evs'" "got = chunks (on_event ev s) @ received consumed"
           "chunks s' = got" "callback_holds callback got"
        by blast
      with OnData show ?thesis
        by (intro exI [of _ "ev # consumed"]) simp
    qed
  next
    case OnConnect
    with Cons.prems have "read_wait callback old s evs = Resolved got s' evs'"
      by (simp add: Let_def)
    from Cons.IH [OF this] obtain consumed where
      c: "evs = consumed @ evs'" "got = chunks s @ received consumed"
         "chunks s' = got" "callback_holds callback got"
      by blast
    with OnConnect show ?thesis
      by (intro exI [of _ "ev # consumed"]) simp
  qed (use Cons.prems in \<open>simp_all add: Let_def\<close>)
qed

lemma readAsync_resolved:
  assumes "readAsync callback tmo s evs = Resolved got s' evs'"
  shows "\<exists>consumed. evs = consumed @ evs' \<and> got = chunks s @ received consumed
           \<and> chunks s' = got \<and> callback_holds callback got"
proof (cases "chunks s \<noteq> [] \<and> callback_holds callback (chunks s)")
  case True
  with assms have "got = chunks s" "evs' = evs" "chunks s' = chunks s"
    by (auto simp add: readAsync_def Let_def)
  with True show ?thesis by (intro exI [of _ "[]"]) simp
next
  case False
  with assms
  have "read_wait callback (timeout s) (set_call_timeout tmo s) evs = Resolved got s' evs'"
    by (auto simp add: readAsync_def Let_def)
  from read_wait_resolved [OF this] show ?thesis by simp
qed

text \<open>
  C8. When \<open>readAndClearAsync\<close> resolves, what it returns is the whole buffer at the
  moment the inner read resolved (the bytes buffered at the call followed by every
  byte delivered up to the resolution), and the buffer is empty right afterwards: its
  length is what was buffered less what was returned, which is 0.
\<close>

theorem readAndClearAsync_takes_whole_buffer:
  assumes "readAndClearAsync callback tmo s evs = Resolved got s' evs'"
  shows "\<exists>consumed. evs = consumed @ evs' \<and> got = chunks s @ received consumed
           \<and> chunks s' = []
           \<and> length (chunks s') = length (chunks s @ received consumed) - length got"
proof -
  from assms obtain s1 where
    r: "readAsync callback tmo s evs = Resolved got s1 evs'" and
    s': "s' = snd (spliceChunks (Some 0) None s1)"
    by (auto simp add: readAndClearAsync_def await_def split: outcome.splits)
  from readAsync_resolved [OF r] obtain consumed where
    "evs = consumed @ evs'" "got = chunks s @ received consumed"
    by blast
  moreover have "chunks s' = []" using s' by (simp add: spliceChunks_all)
  ultimately show ?thesis by (intro exI [of _ consumed]) simp
qed

theorem readAndClearAsync_takes_whole_buffer_witness:
  "readAndClearAsync (Some (\<lambda>b. 3 \<le> length b)) (Some 10000) (new_socket\<lparr>chunks := [5]\<rparr>)
       [OnData [0], OnData [7], OnData [9]]
     = Resolved [5, 0, 7] (new_socket\<lparr>timeout := Some 0\<rparr>) [OnData [9]]
   \<and> (\<exists>consumed. [OnData [0], OnData [7], OnData [9]] = consumed @ [OnData [9]]
         \<and> [5, 0, 7] = chunks (new_socket\<lparr>chunks := [5]\<rparr>) @ received consumed
         \<and> chunks (new_socket\<lparr>timeout := Some 0\<rparr>) = [])"
proof -
  have run: "readAndClearAsync (Some (\<lambda>b. 3 \<le> length b)) (Some 10000)
               (new_socket\<lparr>chunks := [5]\<rparr>) [OnData [0], OnData [7], OnData [9]]
             = Resolved [5, 0, 7] (new_socket\<lparr>timeout := Some 0\<rparr>) [OnData [9]]"
    by (simp add: readAndClearAsync_def readAsync_def await_def new_socket_def
        set_call_timeout_def setTimeout_def callback_holds_def removeAllListeners_def
        spliceChunks_all Let_def)
  from readAndClearAsync_takes_whole_buffer [OF run] run show ?thesis by auto
qed

section \<open>The terminal error\<close>

lemma error_set_error_once:
  "error (set_error_once e s) = (case error s of None \<Rightarrow> Some e | Some e0 \<Rightarrow> Some e0)"
  by (simp add: set_error_once_def split: option.splits)

lemma error_on_event:
  "error (on_event ev s) =
     (case error s of Some e0 \<Rightarrow> Some e0 | None \<Rightarrow> terminal_error ev)"
  by (cases ev) (simp_all add: destroy_def error_set_error_once split: option.splits)

text \<open>
  C9. The \<open>error\<close> field is written once: after any sequence of notifications it
  holds what it held before when that was not null, and otherwise the error of the
  first timeout, error, end or close notification of the sequence (null when there is
  none). Later notifications do not change it.
\<close>

theorem error_field_write_once:
  "error (fold on_event evs s) =
     (case error s of Some e0 \<Rightarrow> Some e0 | None \<Rightarrow> first_terminal evs)"
proof (induction evs arbitrary: s)
  case Nil
  then show ?case by (simp split: option.splits)
next
  case (Cons ev evs)
  show ?case
    by (simp add: Cons.IH error_on_event split: option.splits)
qed


section \<open>What the negotiations write\<close>

lemma written_destroy [simp]: "written (destroy s) = written s"
  by (simp add: destroy_def)

lemma written_set_error_once [simp]: "written (set_error_once e s) = written s"
  by (simp add: set_error_once_def)

lemma written_on_event [simp]: "written (on_event ev s) = written s"
  by (cases ev) simp_all

lemma written_removeAllListeners [simp]: "written (removeAllListeners old s) = written s"
  by (simp add: removeAllListeners_def setTimeout_def)

lemma written_set_call_timeout [simp]: "written (set_call_timeout t s) = written s"
  by (simp add: set_call_timeout_def setTimeout_def split: option.splits)

lemma written_read_wait: "written (outcome_socket (read_wait callback old s evs)) = written s"
proof (induction evs arbitrary: s)
  case Nil
  show ?case by simp
next
  case (Cons ev evs)
  show ?case by (cases ev) (simp_all add: Let_def Cons.IH)
qed

lemma written_readAsync: "written (outcome_socket (readAsync callback tmo s evs)) = written s"
  by (simp add: readAsync_def Let_def written_read_wait)

lemma written_readAndClearAsync:
  "written (outcome_socket (readAndClearAsync callback tmo s evs)) = written s"
proof (cases "readAsync callback tmo s evs")
  case (Resolved got s1 evs1)
  with written_readAsync [of callback tmo s evs] show ?thesis
    by (simp add: readAndClearAsync_def await_def spliceChunks_all)
next
  case (Rejected e s1 evs1)
  with written_readAsync [of callback tmo s evs] show ?thesis
    by (simp add: readAndClearAsync_def await_def)
next
  case (Pending s1)
  with written_readAsync [of callback tmo s evs] show ?thesis
    by (simp add: readAndClearAsync_def await_def)
qed

lemma written_settle [simp]: "written (outcome_socket (settle r s evs)) = written s"
  by (cases r) (simp_all add: settle_def)

lemma await_prefix:
  assumes "prefix w (written (outcome_socket m))"
    and "\<And>x s1 evs1. m = Resolved x s1 evs1 \<Longrightarrow>
           prefix (written s1) (written (outcome_socket (k x s1 evs1)))"
  shows "prefix w (written (outcome_socket (await m k)))"
proof (cases m)
  case (Resolved x s1 evs1)
  with assms(1) have "prefix w (written s1)" by simp
  also have "prefix (written s1) (written (outcome_socket (k x s1 evs1)))"
    using assms(2) Resolved by simp
  finally show ?thesis using Resolved by (simp add: await_def)
next
  case (Rejected e s1 evs1)
  with assms(1) show ?thesis by (simp add: await_def)
next
  case (Pending s1)
  with assms(1) show ?thesis by (simp add: await_def)
qed

lemma read_then_settle_prefix:
  "prefix (written s)
     (written (outcome_socket (await (readAndClearAsync callback tmo s evs)
        (\<lambda>got s' evs'. settle (f got) s' evs'))))"
  by (rule await_prefix) (simp_all add: written_readAndClearAsync)

lemma socks5_request_prefix:
  "prefix (written s) (written (outcome_socket (socks5_request P options tmo s evs)))"
proof (cases "socks5_target_info P (host options) (port options)")
  case (Inl e)
  then show ?thesis by (simp add: socks5_request_def)
next
  case (Inr targetInfo)
  have "prefix (written s) (written (socket_write targetInfo s))"
    by (simp add: socket_write_def)
  also have "prefix (written (socket_write targetInfo s))
      (written (outcome_socket (await (readAndClearAsync None (Some tmo) (socket_write targetInfo s) evs)
        (\<lambda>got s' evs'. settle (socks5_check_reply (host options) got) s' evs'))))"
    by (rule read_then_settle_prefix)
  finally show ?thesis using Inr by (simp add: socks5_request_def)
qed

lemma socks5_auth_prefix:
  "prefix (written s) (written (outcome_socket (socks5_auth user pass tmo s evs)))"
proof -
  have "prefix (written s) (written (socket_write (socks5_auth_info user pass) s))"
    by (simp add: socket_write_def)
  also have "prefix (written (socket_write (socks5_auth_info user pass) s))
      (written (outcome_socket (socks5_auth user pass tmo s evs)))"
    unfolding socks5_auth_def by (rule read_then_settle_prefix)
  finally show ?thesis .
qed

lemma socks5_greeting_bytes: "socks5_greeting = [0x05, 0x02, 0x00, 0x02]"
  by (simp add: socks5_greeting_def js_def hex_value_def)

lemma connectSocks5Proxy_writes_greeting:
  "prefix (written s @ [[0x05, 0x02, 0x00, 0x02]])
     (written (outcome_socket (connectSocks5Proxy P options prox s evs)))"
proof -
  define tmo where "tmo = default_to 10000 (proxy_timeout prox)"
  define s0 where "s0 = socket_write socks5_greeting s"
  have w0: "written s0 = written s @ [[0x05, 0x02, 0x00, 0x02]]"
    by (simp add: s0_def socket_write_def socks5_greeting_bytes)
  have "prefix (written s0)
     (written (outcome_socket (connectSocks5Proxy P options prox s evs)))"
    unfolding connectSocks5Proxy_def Let_def s0_def [symmetric] tmo_def [symmetric]
  proof (rule await_prefix)
    show "prefix (written s0) (written (outcome_socket (readAndClearAsync None (Some tmo) s0 evs)))"
      by (simp add: written_readAndClearAsync)
  next
    fix got s1 evs1
    show "prefix (written s1)
        (written (outcome_socket
           (case socks5_check_greeting got of
              Inl e \<Rightarrow> Rejected e s1 evs1
            | Inr authType \<Rightarrow>
                if authType = Some 0x02
                then await (socks5_auth (default_to [] (username prox)) (default_to [] (password prox)) tmo s1 evs1)
                       (\<lambda>u s2 evs2. socks5_request P options tmo s2 evs2)
                else socks5_request P options tmo s1 evs1)))"
    proof (cases "socks5_check_greeting got")
      case (Inl e)
      then show ?thesis by simp
    next
      case (Inr authType)
      show ?thesis
      proof (cases "authType = Some 0x02")
        case True
        have "prefix (written s1) (written (outcome_socket
            (await (socks5_auth (default_to [] (username prox)) (default_to [] (password prox)) tmo s1 evs1)
                       (\<lambda>u s2 evs2. socks5_request P options tmo s2 evs2))))"
          by (rule await_prefix) (simp_all add: socks5_auth_prefix socks5_request_prefix)
        with Inr True show ?thesis by simp
      next
        case False
        with Inr show ?thesis by (simp add: socks5_request_prefix)
      qed
    qed
  qed
  with w0 show ?thesis by simp
qed

lemma socks5_check_greeting_cases:
  "socks5_check_greeting got =
     (if length got \<noteq> 2
      then Inl (JsError Error (js ''Unexpected number of bytes received.''))
      else if got ! 0 \<noteq> 0x05
      then Inl (JsError Error
             (js ''Unexpected socks version number: '' @ number_toString (unat (got ! 0)) @ js ''.''))
      else if got ! 1 \<noteq> 0x00 \<and> got ! 1 \<noteq> 0x02
      then Inl (JsError Error
             (js ''Unexpected socks authentication method: '' @ number_toString (unat (got ! 1))))
      else Inr (Some (got ! 1)))"
  by (simp add: socks5_check_greeting_def nth_opt_def template_value_def Let_def del: number_toString.simps)


section \<open>The SOCKS5 greeting\<close>

text \<open>
  C5. The first thing the SOCKS5 negotiation writes is the greeting \<open>05 02 00 02\<close>.
  The check of the reply passes exactly when the reply has two bytes, the first is
  \<open>0x05\<close> and the second is \<open>0x00\<close> or \<open>0x02\<close>; otherwise it fails, in this order,
  with the error for a wrong number of bytes, a wrong version or an unsupported
  authentication method. When the read of the reply resolves, the negotiation rejects
  with that error or goes on to the authentication or to the request for the target.
\<close>

theorem socks5_greeting_and_method_selection:
  "(\<exists>rest. written (outcome_socket (connectSocks5Proxy P options prox s evs))
             = written s @ [0x05, 0x02, 0x00, 0x02] # rest)
   \<and> ((\<exists>a. socks5_check_greeting got = Inr a)
        \<longleftrightarrow> length got = 2 \<and> got ! 0 = 0x05 \<and> (got ! 1 = 0x00 \<or> got ! 1 = 0x02))
   \<and> socks5_check_greeting got =
       (if length got \<noteq> 2
        then Inl (JsError Error (js ''Unexpected number of bytes received.''))
        else if got ! 0 \<noteq> 0x05
        then Inl (JsError Error
               (js ''Unexpected socks version number: '' @ number_toString (unat (got ! 0))
                @ js ''.''))
        else if got ! 1 \<noteq> 0x00 \<and> got ! 1 \<noteq> 0x02
        then Inl (JsError Error
               (js ''Unexpected socks authentication method: ''
                @ number_toString (unat (got ! 1))))
        else Inr (Some (got ! 1)))
   \<and> (readAndClearAsync None (Some (default_to 10000 (proxy_timeout prox)))
          (socket_write [0x05, 0x02, 0x00, 0x02] s) evs = Resolved got s1 evs1
        \<longrightarrow> connectSocks5Proxy P options prox s evs =
            (case socks5_check_greeting got of
               Inl e \<Rightarrow> Rejected e s1 evs1
             | Inr authType \<Rightarrow>
                 if authType = Some 0x02
                 then await (socks5_auth (default_to [] (username prox))
                               (default_to [] (password prox))
                               (default_to 10000 (proxy_timeout prox)) s1 evs1)
                        (\<lambda>u s2 evs2. socks5_request P options
                                        (default_to 10000 (proxy_timeout prox)) s2 evs2)
                 else socks5_request P options (default_to 10000 (proxy_timeout prox)) s1 evs1))"
proof (intro conjI impI)
  from connectSocks5Proxy_writes_greeting [of s P options prox evs]
  show "\<exists>rest. written (outcome_socket (connectSocks5Proxy P options prox s evs))
             = written s @ [0x05, 0x02, 0x00, 0x02] # rest"
    by (auto simp add: prefix_def)
next
  show "(\<exists>a. socks5_check_greeting got = Inr a)
        \<longleftrightarrow> length got = 2 \<and> got ! 0 = 0x05 \<and> (got ! 1 = 0x00 \<or> got ! 1 = 0x02)"
    by (auto simp add: socks5_check_greeting_cases simp del: number_toString.simps)
next
  show "socks5_check_greeting got =
       (if length got \<noteq> 2
        then Inl (JsError Error (js ''Unexpected number of bytes received.''))
        else if got ! 0 \<noteq> 0x05
        then Inl (JsError Error
               (js ''Unexpected socks version number: '' @ number_toString (unat (got ! 0))
                @ js ''.''))
        else if got ! 1 \<noteq> 0x00 \<and> got ! 1 \<noteq> 0x02
        then Inl (JsError Error
               (js ''Unexpected socks authentication method: ''
                @ number_toString (unat (got ! 1))))
        else Inr (Some (got ! 1)))"
    by (rule socks5_check_greeting_cases)
next
  assume "readAndClearAsync None (Some (default_to 10000 (proxy_timeout prox)))
          (socket_write [0x05, 0x02, 0x00, 0x02] s) evs = Resolved got s1 evs1"
  then show "connectSocks5Proxy P options prox s evs =
            (case socks5_check_greeting got of
               Inl e \<Rightarrow> Rejected e s1 evs1
             | Inr authType \<Rightarrow>
                 if authType = Some 0x02
                 then await (socks5_auth (default_to [] (username prox))
                               (default_to [] (password prox))
                               (default_to 10000 (proxy_timeout prox)) s1 evs1)
                        (\<lambda>u s2 evs2. socks5_request P options
                                        (default_to 10000 (proxy_timeout prox)) s2 evs2)
                 else socks5_request P options (default_to 10000 (proxy_timeout prox)) s1 evs1)"
    by (simp add: connectSocks5Proxy_def Let_def socks5_greeting_bytes await_def)
qed

lemma readAndClearAsync_first_data:
  "chunks s = [] \<Longrightarrow>
   readAndClearAsync None tmo s (OnData d # evs)
     = Resolved d ((removeAllListeners (timeout s) (set_call_timeout tmo s))\<lparr>chunks := []\<rparr>) evs"
  by (simp add: readAndClearAsync_def readAsync_def await_def Let_def callback_holds_def
      spliceChunks_all removeAllListeners_def setTimeout_def set_call_timeout_def
      split: option.splits)

theorem socks5_greeting_and_method_selection_witness:
  "readAndClearAsync None (Some (default_to 10000 (proxy_timeout example_proxy)))
      (socket_write [0x05, 0x02, 0x00, 0x02] new_socket) [OnData [0x05, 0x01]]
     = Resolved [0x05, 0x01]
         (new_socket\<lparr>timeout := Some 0, written := [[0x05, 0x02, 0x00, 0x02]]\<rparr>) []
   \<and> connectSocks5Proxy example_platform example_options example_proxy new_socket
        [OnData [0x05, 0x01]]
     = Rejected (JsError Error (js ''Unexpected socks authentication method: 1''))
         (new_socket\<lparr>timeout := Some 0, written := [[0x05, 0x02, 0x00, 0x02]]\<rparr>) []"
proof -
  have run: "readAndClearAsync None (Some (default_to 10000 (proxy_timeout example_proxy)))
      (socket_write [0x05, 0x02, 0x00, 0x02] new_socket) [OnData [0x05, 0x01]]
     = Resolved [0x05, 0x01]
         (new_socket\<lparr>timeout := Some 0, written := [[0x05, 0x02, 0x00, 0x02]]\<rparr>) []"
    by (simp add: readAndClearAsync_first_data socket_write_def new_socket_def
        removeAllListeners_def setTimeout_def set_call_timeout_def default_to_def
        example_proxy_def)
  from socks5_greeting_and_method_selection
    [of example_platform example_options example_proxy new_socket "[OnData [0x05, 0x01]]"
        "[0x05, 0x01]" "new_socket\<lparr>timeout := Some 0, written := [[0x05, 0x02, 0x00, 0x02]]\<rparr>" "[]"]
  have "connectSocks5Proxy example_platform example_options example_proxy new_socket
        [OnData [0x05, 0x01]]
      = (case socks5_check_greeting [0x05, 0x01] of
               Inl e \<Rightarrow> Rejected e (new_socket\<lparr>timeout := Some 0, written := [[0x05, 0x02, 0x00, 0x02]]\<rparr>) []
             | Inr authType \<Rightarrow>
                 if authType = Some 0x02
                 then await (socks5_auth (default_to [] (username example_proxy))
                               (default_to [] (password example_proxy))
                               (default_to 10000 (proxy_timeout example_proxy)) (new_socket\<lparr>timeout := Some 0, written := [[0x05, 0x02, 0x00, 0x02]]\<rparr>) [])
                        (\<lambda>u s2 evs2. socks5_request example_platform example_options
                                        (default_to 10000 (proxy_timeout example_proxy)) s2 evs2)
                 else socks5_request example_platform example_options (default_to 10000 (proxy_timeout example_proxy)) (new_socket\<lparr>timeout := Some 0, written := [[0x05, 0x02, 0x00, 0x02]]\<rparr>) [])"
    using run by blast
  also have "socks5_check_greeting [0x05, 0x01]
      = Inl (JsError Error (js ''Unexpected socks authentication method: 1''))"
    by (simp add: socks5_check_greeting_def nth_opt_def template_value_def js_def)
  finally show ?thesis using run by simp
qed


section \<open>The reply to the SOCKS5 request\<close>

lemma socks5_request_after_read:
  assumes "socks5_target_info P (host options) (port options) = Inr targetInfo"
    and "readAndClearAsync None (Some tmo) (socket_write targetInfo s) evs = Resolved got s' evs'"
  shows "socks5_request P options tmo s evs = settle (socks5_check_reply (host options) got) s' evs'"
  using assms by (simp add: socks5_request_def await_def)

lemma ERROR_MAP_table:
  "ERROR_MAP n = Some m \<Longrightarrow> 1 \<le> n \<and> n \<le> 8 \<and> m \<noteq> []"
  by (auto simp add: ERROR_MAP_def split: if_splits)

lemma ERROR_MAP_defined:
  "1 \<le> n \<Longrightarrow> n \<le> 8 \<Longrightarrow> \<exists>m. ERROR_MAP n = Some m"
proof -
  assume "1 \<le> n" "n \<le> 8"
  then have "n \<in> {1, 2, 3, 4, 5, 6, 7, 8}"
    by (simp only: insert_iff empty_iff) arith
  then show ?thesis by (auto simp add: ERROR_MAP_def)
qed

lemma ERROR_MAP_outside: "8 < n \<Longrightarrow> ERROR_MAP n = None"
  by (simp add: ERROR_MAP_def)

text \<open>
  C3. When the reply to the request for the target starts with \<open>0x05\<close> and its second
  byte is a code other than 0, the negotiation rejects with an \<open>Error\<close>: for a code
  from 1 to 8 its message is the entry of \<open>ERROR_MAP\<close> for the code, and for a larger
  code it is the message for an unknown failure followed by the host. The
  entry for code 2 says that the rule set of the proxy does not allow the connection.
\<close>

theorem socks5_reply_error_table:
  assumes "socks5_target_info P (host options) (port options) = Inr targetInfo"
    and "readAndClearAsync None (Some tmo) (socket_write targetInfo s) evs = Resolved got s' evs'"
    and "nth_opt got 0 = Some 0x05" and "nth_opt got 1 = Some code" and "code \<noteq> 0"
  shows "(\<exists>e. socks5_check_reply (host options) got = Inl e
            \<and> socks5_request P options tmo s evs = Rejected e s' evs'
            \<and> cls e = Error
            \<and> (if unat code \<le> 8 then ERROR_MAP (unat code) = Some (message e)
                else message e = unknown_error_prefix @ host options))
       \<and> ERROR_MAP 2 = Some ([0x4EE3, 0x7406, 0x670D, 0x52A1, 0x5668]
                              @ [0x89C4, 0x5219, 0x96C6]
                              @ [0x4E0D, 0x5141, 0x8BB8, 0x8FDE, 0x63A5])"
proof -
  have code_pos: "1 \<le> unat code"
    using assms(5) by (simp add: unat_gt_0 Suc_le_eq)
  have table: "ERROR_MAP 2 = Some ([0x4EE3, 0x7406, 0x670D, 0x52A1, 0x5668]
                              @ [0x89C4, 0x5219, 0x96C6]
                              @ [0x4E0D, 0x5141, 0x8BB8, 0x8FDE, 0x63A5])"
    by (simp add: ERROR_MAP_def)
  show ?thesis
  proof (cases "unat code \<le> 8")
    case True
    with code_pos obtain m where m: "ERROR_MAP (unat code) = Some m"
      using ERROR_MAP_defined by blast
    then have "m \<noteq> []" using ERROR_MAP_table by blast
    with m assms(3,4,5)
    have chk: "socks5_check_reply (host options) got = Inl (JsError Error m)"
      by (simp add: socks5_check_reply_def error_map_get_def)
    with socks5_request_after_read [OF assms(1,2)]
    have "socks5_request P options tmo s evs = Rejected (JsError Error m) s' evs'"
      by (simp add: settle_def)
    with chk m True table show ?thesis by simp
  next
    case False
    then have "ERROR_MAP (unat code) = None" by (simp add: ERROR_MAP_outside)
    with assms(3,4,5)
    have chk: "socks5_check_reply (host options) got
                 = Inl (JsError Error (unknown_error_prefix @ host options))"
      by (simp add: socks5_check_reply_def error_map_get_def)
    with socks5_request_after_read [OF assms(1,2)]
    have "socks5_request P options tmo s evs
            = Rejected (JsError Error (unknown_error_prefix @ host options)) s' evs'"
      by (simp add: settle_def)
    with chk False table show ?thesis by simp
  qed
qed

lemma example_target_info:
  "socks5_target_info example_platform (host example_options) (port example_options)
     = Inr [0x05, 0x01, 0x00, 0x03, 0x0A, 0x67, 0x6F, 0x6F, 0x67, 0x6C, 0x65, 0x2E, 0x63, 0x6F,
            0x6D, 0x01, 0xBB]"
  by code_simp


lemma example_reply_read:
  "readAndClearAsync None (Some 10000)
     (socket_write
        [0x05, 0x01, 0x00, 0x03, 0x0A, 0x67, 0x6F, 0x6F, 0x67, 0x6C, 0x65, 0x2E, 0x63, 0x6F,
         0x6D, 0x01, 0xBB] new_socket) (OnData d # evs)
   = Resolved d
       (new_socket\<lparr>timeout := Some 0,
          written := [[0x05, 0x01, 0x00, 0x03, 0x0A, 0x67, 0x6F, 0x6F, 0x67, 0x6C, 0x65, 0x2E,
                       0x63, 0x6F, 0x6D, 0x01, 0xBB]]\<rparr>) evs"
  by (simp add: readAndClearAsync_first_data socket_write_def new_socket_def
      removeAllListeners_def setTimeout_def set_call_timeout_def)

theorem socks5_reply_error_table_witness:
  "socks5_request example_platform example_options 10000 new_socket [OnData [0x05, 0x02]]
   = Rejected
       (JsError Error
          [0x4EE3, 0x7406, 0x670D, 0x52A1, 0x5668, 0x89C4, 0x5219, 0x96C6, 0x4E0D, 0x5141,
           0x8BB8, 0x8FDE, 0x63A5])
       (new_socket\<lparr>timeout := Some 0,
          written := [[0x05, 0x01, 0x00, 0x03, 0x0A, 0x67, 0x6F, 0x6F, 0x67, 0x6C, 0x65, 0x2E,
                       0x63, 0x6F, 0x6D, 0x01, 0xBB]]\<rparr>) []"
proof -
  have n0: "nth_opt [0x05, 0x02 :: byte] 0 = Some 0x05"
    and n1: "nth_opt [0x05, 0x02 :: byte] 1 = Some 0x02"
    and nz: "(0x02 :: byte) \<noteq> 0"
    by (simp_all add: nth_opt_def)
  from socks5_reply_error_table
         [OF example_target_info example_reply_read [of "[0x05, 0x02]" "[]"] n0 n1 nz]
  obtain e where
    e: "socks5_request example_platform example_options 10000 new_socket [OnData [0x05, 0x02]]
          = Rejected e
              (new_socket\<lparr>timeout := Some 0,
                 written := [[0x05, 0x01, 0x00, 0x03, 0x0A, 0x67, 0x6F, 0x6F, 0x67, 0x6C, 0x65,
                              0x2E, 0x63, 0x6F, 0x6D, 0x01, 0xBB]]\<rparr>) []"
    and c: "cls e = Error"
    and m: "ERROR_MAP (unat (0x02 :: byte)) = Some (message e)"
    by auto
  from m have "message e = [0x4EE3, 0x7406, 0x670D, 0x52A1, 0x5668, 0x89C4, 0x5219, 0x96C6, 0x4E0D,
                            0x5141, 0x8BB8, 0x8FDE, 0x63A5]"
    by (simp add: ERROR_MAP_def)
  with c have "e = JsError Error [0x4EE3, 0x7406, 0x670D, 0x52A1, 0x5668, 0x89C4, 0x5219, 0x96C6,
                                  0x4E0D, 0x5141, 0x8BB8, 0x8FDE, 0x63A5]"
    by (cases e) simp
  with e show ?thesis by simp
qed

text \<open>
  C10. When the reply to the request for the target has fewer than two bytes, its
  second byte reads as \<open>undefined\<close> and the check of the reply fails: with the error
  for an unknown failure when the only byte is \<open>0x05\<close>, and with the error for a wrong
  version otherwise (the version printed is \<open>undefined\<close> for an empty reply). The
  negotiation rejects with that error; it never resolves.
\<close>

theorem socks5_short_reply_rejected:
  assumes "socks5_target_info P (host options) (port options) = Inr targetInfo"
    and "readAndClearAsync None (Some tmo) (socket_write targetInfo s) evs = Resolved got s' evs'"
    and "length got < 2"
  shows "nth_opt got 1 = None
       \<and> (\<exists>e. socks5_check_reply (host options) got = Inl e
              \<and> socks5_request P options tmo s evs = Rejected e s' evs'
              \<and> e = JsError Error
                     (if nth_opt got 0 = Some 0x05 then unknown_error_prefix @ host options
                      else js ''Unexpected SOCKS version number: ''
                           @ template_value (nth_opt got 0) @ js ''.''))"
proof -
  have none: "nth_opt got 1 = None"
    using assms(3) by (simp add: nth_opt_def)
  then have chk: "socks5_check_reply (host options) got
      = Inl (JsError Error
               (if nth_opt got 0 = Some 0x05 then unknown_error_prefix @ host options
                else js ''Unexpected SOCKS version number: ''
                     @ template_value (nth_opt got 0) @ js ''.''))"
    by (simp add: socks5_check_reply_def error_map_get_def)
  with socks5_request_after_read [OF assms(1,2)] none show ?thesis
    by (simp add: settle_def)
qed

theorem socks5_short_reply_rejected_witness:
  "socks5_request example_platform example_options 10000 new_socket [OnData [0x05]]
     = Rejected (JsError Error (unknown_error_prefix @ js ''google.com''))
         (new_socket\<lparr>timeout := Some 0,
            written := [[0x05, 0x01, 0x00, 0x03, 0x0A, 0x67, 0x6F, 0x6F, 0x67, 0x6C, 0x65, 0x2E,
                         0x63, 0x6F, 0x6D, 0x01, 0xBB]]\<rparr>) []
   \<and> nth_opt [0x05 :: byte] 1 = None"
proof -
  have short: "length [0x05 :: byte] < 2" by simp
  from socks5_short_reply_rejected
         [OF example_target_info example_reply_read [of "[0x05]" "[]"] short]
  show ?thesis by (auto simp add: nth_opt_def example_options_def)
qed

section \<open>The SOCKS5 authentication message\<close>

text \<open>
  C1. The message for the user name \<open>u\<close> and the password of the single character
  U+00E9, whose UTF-8 encoding has two bytes: the prefix written for the password is
  1, its length in UTF-16 code units, and two bytes follow it. The prefix for the user
  name is the length of its encoding.
\<close>

theorem socks5_auth_info_password_length:
  "socks5_auth_info (js ''u'') [0xE9] = [0x01, 0x01, 0x75, 0x01, 0xC3, 0xA9]
   \<and> utf8_encode [0xE9] = [0xC3, 0xA9]
   \<and> socks5_auth_info (js ''u'') [0xE9]
       \<noteq> [0x01, of_nat (length (utf8_encode (js ''u'')))] @ utf8_encode (js ''u'')
         @ [of_nat (length (utf8_encode [0xE9]))] @ utf8_encode [0xE9]
   \<and> written (outcome_socket
        (connectSocks5Proxy example_platform example_options
           (example_proxy\<lparr>username := Some (js ''u''), password := Some [0xE9]\<rparr>)
           new_socket [OnData [0x05, 0x02]]))
       = [[0x05, 0x02, 0x00, 0x02], [0x01, 0x01, 0x75, 0x01, 0xC3, 0xA9]]"
  by code_simp


section \<open>The HTTP CONNECT response\<close>

lemma match_at_start_append:
  "match_at_start (as @ bs) s \<longleftrightarrow>
     length as \<le> length s \<and> match_at_start as s \<and> match_at_start bs (drop (length as) s)"
proof (induction as arbitrary: s)
  case Nil
  show ?case by simp
next
  case (Cons a as)
  show ?case by (cases s) (auto simp add: Cons.IH)
qed

lemma match_at_start_literals:
  "match_at_start (map Lit p) s \<longleftrightarrow> starts_with_ignoring_case p s"
proof (induction p arbitrary: s)
  case Nil
  show ?case by (simp add: starts_with_ignoring_case_def)
next
  case (Cons c p)
  show ?case
    by (cases s) (auto simp add: Cons.IH starts_with_ignoring_case_def)
qed

lemma starts_with_ignoring_case_append:
  "starts_with_ignoring_case (p @ q) s \<longleftrightarrow>
     starts_with_ignoring_case p s \<and> starts_with_ignoring_case q (drop (length p) s)"
proof (induction p arbitrary: s)
  case Nil
  show ?case by (simp add: starts_with_ignoring_case_def)
next
  case (Cons c p)
  show ?case
  proof (cases s)
    case Nil
    then show ?thesis by (simp add: starts_with_ignoring_case_def)
  next
    case (Cons d s')
    have "starts_with_ignoring_case ((c # p) @ q) s \<longleftrightarrow>
          ascii_upper d = ascii_upper c \<and> starts_with_ignoring_case (p @ q) s'"
      using Cons by (auto simp add: starts_with_ignoring_case_def)
    also have "\<dots> \<longleftrightarrow> ascii_upper d = ascii_upper c \<and> starts_with_ignoring_case p s'
                 \<and> starts_with_ignoring_case q (drop (length p) s')"
      by (simp add: Cons.IH)
    also have "\<dots> \<longleftrightarrow> starts_with_ignoring_case (c # p) s
                 \<and> starts_with_ignoring_case q (drop (length (c # p)) s)"
      using Cons by (auto simp add: starts_with_ignoring_case_def)
    finally show ?thesis .
  qed
qed

lemma starts_with_ignoring_case_Cons:
  "starts_with_ignoring_case (c # q) s \<longleftrightarrow>
     starts_with_ignoring_case [c] s \<and> starts_with_ignoring_case q (drop 1 s)"
  using starts_with_ignoring_case_append [of "[c]" q s] by simp

lemma match_one_of_two:
  "match_at_start (OneOf [a, b] # as) s \<longleftrightarrow>
     (starts_with_ignoring_case [a] s \<or> starts_with_ignoring_case [b] s)
     \<and> match_at_start as (drop 1 s)"
  by (cases s) (auto simp add: starts_with_ignoring_case_def)

lemma one_of_two_pattern:
  "match_at_start (map Lit A @ OneOf [a, b] # map Lit B) s \<longleftrightarrow>
     starts_with_ignoring_case (A @ a # B) s \<or> starts_with_ignoring_case (A @ b # B) s"
proof -
  have "starts_with_ignoring_case A s \<Longrightarrow> length A \<le> length s"
    by (simp add: starts_with_ignoring_case_def)
  then show ?thesis
    unfolding match_at_start_append starts_with_ignoring_case_append match_one_of_two
      match_at_start_literals starts_with_ignoring_case_Cons [of a B]
      starts_with_ignoring_case_Cons [of b B] length_map
    by blast
qed

lemma http_200_pattern_meaning:
  "match_at_start http_200_pattern s \<longleftrightarrow>
     starts_with_ignoring_case (js ''HTTP/1.0 200'') s
     \<or> starts_with_ignoring_case (js ''HTTP/1.1 200'') s"
proof -
  have split0: "js ''HTTP/1.0 200'' = js ''HTTP/1.'' @ 0x30 # js '' 200''"
    and split1: "js ''HTTP/1.1 200'' = js ''HTTP/1.'' @ 0x31 # js '' 200''"
    and pat: "http_200_pattern = map Lit (js ''HTTP/1.'') @ OneOf [0x30, 0x31] # map Lit (js '' 200'')"
    by (simp_all add: js_def http_200_pattern_def)
  show ?thesis
    unfolding pat split0 split1 by (rule one_of_two_pattern)
qed

text \<open>
  C6. The check of the response of an HTTP proxy passes exactly when the response,
  decoded and trimmed, starts with \<open>HTTP/1.0 200\<close> or \<open>HTTP/1.1 200\<close>, ignoring the
  case of letters; otherwise it fails with an \<open>Error\<close> whose message ends with the
  trimmed response. When the read of the response resolves, the negotiation resolves
  in the first case and rejects with that error in the second.
\<close>

theorem http_connect_response_check:
  "http_check_response P got =
     (if starts_with_ignoring_case (js ''HTTP/1.0 200'') (trim (buffer_toString P got))
         \<or> starts_with_ignoring_case (js ''HTTP/1.1 200'') (trim (buffer_toString P got))
      then Inr ()
      else Inl (JsError Error (connect_failed_prefix @ trim (buffer_toString P got))))
   \<and> (readAndClearAsync None (Some (default_to 10000 (proxy_timeout prox)))
         (socket_write
            (utf8_encode
               (http_connect_header (host options) (port options)
                  (default_to [] (username prox)) (default_to [] (password prox)))) s) evs
        = Resolved got s' evs'
       \<longrightarrow> connectHttpProxy P options prox s evs =
           (if starts_with_ignoring_case (js ''HTTP/1.0 200'') (trim (buffer_toString P got))
               \<or> starts_with_ignoring_case (js ''HTTP/1.1 200'') (trim (buffer_toString P got))
            then Resolved () s' evs'
            else Rejected (JsError Error (connect_failed_prefix @ trim (buffer_toString P got)))
                   s' evs'))"
proof -
  have chk: "http_check_response P got =
     (if starts_with_ignoring_case (js ''HTTP/1.0 200'') (trim (buffer_toString P got))
         \<or> starts_with_ignoring_case (js ''HTTP/1.1 200'') (trim (buffer_toString P got))
      then Inr ()
      else Inl (JsError Error (connect_failed_prefix @ trim (buffer_toString P got))))"
    by (simp add: http_check_response_def Let_def http_200_pattern_meaning)
  show ?thesis
  proof (intro conjI impI)
    show "http_check_response P got =
     (if starts_with_ignoring_case (js ''HTTP/1.0 200'') (trim (buffer_toString P got))
         \<or> starts_with_ignoring_case (js ''HTTP/1.1 200'') (trim (buffer_toString P got))
      then Inr ()
      else Inl (JsError Error (connect_failed_prefix @ trim (buffer_toString P got))))"
      by (rule chk)
  next
    assume "readAndClearAsync None (Some (default_to 10000 (proxy_timeout prox)))
         (socket_write
            (utf8_encode
               (http_connect_header (host options) (port options)
                  (default_to [] (username prox)) (default_to [] (password prox)))) s) evs
        = Resolved got s' evs'"
    then have "connectHttpProxy P options prox s evs = settle (http_check_response P got) s' evs'"
      by (simp add: connectHttpProxy_def Let_def await_def)
    then show "connectHttpProxy P options prox s evs =
           (if starts_with_ignoring_case (js ''HTTP/1.0 200'') (trim (buffer_toString P got))
               \<or> starts_with_ignoring_case (js ''HTTP/1.1 200'') (trim (buffer_toString P got))
            then Resolved () s' evs'
            else Rejected (JsError Error (connect_failed_prefix @ trim (buffer_toString P got)))
                   s' evs')"
      by (simp add: chk settle_def)
  qed
qed


theorem http_connect_response_check_witness:
  "readAndClearAsync None (Some (default_to 10000 (proxy_timeout example_proxy)))
     (socket_write
        (utf8_encode
           (http_connect_header (host example_options) (port example_options)
              (default_to [] (username example_proxy)) (default_to [] (password example_proxy))))
        new_socket)
     [OnData (utf8_encode (js ''HTTP/1.1 407 Proxy Authentication Required'' @ crlf @ crlf))]
   = Resolved (utf8_encode (js ''HTTP/1.1 407 Proxy Authentication Required'' @ crlf @ crlf))
       (new_socket\<lparr>timeout := Some 0,
          written := [utf8_encode (http_connect_header (js ''google.com'') 443 [] [])]\<rparr>) []
   \<and> connectHttpProxy example_platform example_options example_proxy new_socket
       [OnData (utf8_encode (js ''HTTP/1.1 407 Proxy Authentication Required'' @ crlf @ crlf))]
     = Rejected
         (JsError Error
            (connect_failed_prefix @ js ''HTTP/1.1 407 Proxy Authentication Required''))
         (new_socket\<lparr>timeout := Some 0,
            written := [utf8_encode (http_connect_header (js ''google.com'') 443 [] [])]\<rparr>) []"
proof -
  let ?got = "utf8_encode (js ''HTTP/1.1 407 Proxy Authentication Required'' @ crlf @ crlf)"
  let ?s' = "new_socket\<lparr>timeout := Some 0,
          written := [utf8_encode (http_connect_header (js ''google.com'') 443 [] [])]\<rparr>"
  have run: "readAndClearAsync None (Some (default_to 10000 (proxy_timeout example_proxy)))
     (socket_write
        (utf8_encode
           (http_connect_header (host example_options) (port example_options)
              (default_to [] (username example_proxy)) (default_to [] (password example_proxy))))
        new_socket) [OnData ?got] = Resolved ?got ?s' []"
    by (simp add: readAndClearAsync_first_data socket_write_def new_socket_def
        removeAllListeners_def setTimeout_def set_call_timeout_def default_to_def
        example_proxy_def example_options_def)
  have decoded: "trim (buffer_toString example_platform ?got)
                = js ''HTTP/1.1 407 Proxy Authentication Required''"
    by code_simp
  have differs: "\<not> starts_with_ignoring_case (js ''HTTP/1.0 200'')
               (js ''HTTP/1.1 407 Proxy Authentication Required'')"
       "\<not> starts_with_ignoring_case (js ''HTTP/1.1 200'')
               (js ''HTTP/1.1 407 Proxy Authentication Required'')"
    by code_simp+
  from http_connect_response_check
         [of example_platform ?got example_proxy example_options new_socket "[OnData ?got]" ?s' "[]"]
       run
  have "connectHttpProxy example_platform example_options example_proxy new_socket [OnData ?got]
      = (if starts_with_ignoring_case (js ''HTTP/1.0 200'')
              (trim (buffer_toString example_platform ?got))
            \<or> starts_with_ignoring_case (js ''HTTP/1.1 200'')
              (trim (buffer_toString example_platform ?got))
         then Resolved () ?s' []
         else Rejected (JsError Error
                (connect_failed_prefix @ trim (buffer_toString example_platform ?got))) ?s' [])"
    by blast
  with run show ?thesis
    by (simp only: decoded differs if_False simp_thms)
qed


section \<open>Errors of connectAsync\<close>

lemma error_toString_ends_with_message: "suffix (message e) (error_toString e)"
proof (cases e)
  case (JsError c m)
  then show ?thesis
    by (cases c) (auto simp add: suffix_def)
qed

lemma connect_wait_rejected:
  "connect_wait old s evs = Rejected e s' evs' \<Longrightarrow>
   OnError e \<in> set evs
   \<or> e \<in> {JsError Error (js ''ECONNECTTIMEOUT''), JsError Error (js ''ESOCKETCLOSED''),
            JsError Error (js ''EENDFIN'')}"
proof (induction evs arbitrary: s)
  case Nil
  then show ?case by simp
next
  case (Cons ev evs)
  show ?case
  proof (cases ev)
    case (OnData d)
    with Cons.prems have "connect_wait old (on_event ev s) evs = Rejected e s' evs'"
      by (simp add: Let_def)
    from Cons.IH [OF this] show ?thesis by auto
  qed (use Cons.prems in \<open>auto simp add: Let_def\<close>)
qed

text \<open>
  C2, as amended. With a proxy configured, every rejection of \<open>connectAsync\<close> is a
  \<open>ProxyError\<close> whose message is the string form of the error raised inside (its
  name, a colon and its message), so it ends with that error's message; and every
  error raised inside is wrapped so. Without a proxy, \<open>connectAsync\<close> is
  \<open>_connectWithoutProxyAsync\<close>: a rejection carries the error the stream reported
  or one of the three connect errors, unwrapped, and is no \<open>ProxyError\<close> unless the
  stream reported one.
\<close>

theorem proxy_errors_are_wrapped:
  "(proxy options = Some prox \<longrightarrow> proxy_attempt P options prox s evs = Rejected e s1 evs1 \<longrightarrow>
      connectAsync P options s evs = Rejected (JsError ProxyError (error_toString e)) s1 evs1
      \<and> suffix (message e) (error_toString e))
   \<and> (proxy options = Some prox \<longrightarrow> connectAsync P options s evs = Rejected e' s2 evs2 \<longrightarrow>
      cls e' = ProxyError
      \<and> (\<exists>e0. proxy_attempt P options prox s evs = Rejected e0 s2 evs2
                \<and> message e' = error_toString e0))
   \<and> (proxy options = None \<longrightarrow>
      connectAsync P options s evs = connectWithoutProxyAsync options s evs)
   \<and> (proxy options = None \<longrightarrow> connectAsync P options s evs = Rejected e'' s3 evs3 \<longrightarrow>
      (OnError e'' \<in> set evs
       \<or> e'' \<in> {JsError Error (js ''ECONNECTTIMEOUT''), JsError Error (js ''ESOCKETCLOSED''),
                  JsError Error (js ''EENDFIN'')})
      \<and> ((\<forall>e0. OnError e0 \<in> set evs \<longrightarrow> cls e0 \<noteq> ProxyError) \<longrightarrow> cls e'' \<noteq> ProxyError))"
proof (intro conjI impI)
  assume "proxy options = Some prox" "proxy_attempt P options prox s evs = Rejected e s1 evs1"
  then show "connectAsync P options s evs
               = Rejected (JsError ProxyError (error_toString e)) s1 evs1"
    by (simp add: connectAsync_def connectWithProxyAsync_def)
next
  show "suffix (message e) (error_toString e)"
    by (rule error_toString_ends_with_message)
next
  assume "proxy options = Some prox" "connectAsync P options s evs = Rejected e' s2 evs2"
  then have r: "connectWithProxyAsync P options prox s evs = Rejected e' s2 evs2"
    by (simp add: connectAsync_def)
  then obtain e0 where "proxy_attempt P options prox s evs = Rejected e0 s2 evs2"
    and "e' = JsError ProxyError (error_toString e0)"
    by (auto simp add: connectWithProxyAsync_def split: outcome.splits)
  then show "cls e' = ProxyError"
    and "\<exists>e0. proxy_attempt P options prox s evs = Rejected e0 s2 evs2
              \<and> message e' = error_toString e0"
    by auto
next
  assume "proxy options = None"
  then show "connectAsync P options s evs = connectWithoutProxyAsync options s evs"
    by (simp add: connectAsync_def)
next
  assume none: "proxy options = None"
    and rej: "connectAsync P options s evs = Rejected e'' s3 evs3"
  then have "connect_wait (timeout s)
               (socket_connect (host options) (port options)
                  (set_call_timeout (connect_timeout options) s)) evs = Rejected e'' s3 evs3"
    by (simp add: connectAsync_def connectWithoutProxyAsync_def Let_def)
  from connect_wait_rejected [OF this]
  show src: "OnError e'' \<in> set evs
       \<or> e'' \<in> {JsError Error (js ''ECONNECTTIMEOUT''), JsError Error (js ''ESOCKETCLOSED''),
                  JsError Error (js ''EENDFIN'')}" .
  assume "\<forall>e0. OnError e0 \<in> set evs \<longrightarrow> cls e0 \<noteq> ProxyError"
  with src show "cls e'' \<noteq> ProxyError" by auto
qed

lemma example_proxy_connect_timeout:
  "proxy_attempt example_platform example_options example_proxy new_socket [OnTimeout]
     = Rejected (JsError Error (js ''ECONNECTTIMEOUT''))
         (new_socket\<lparr>error := Some (JsError Error (js ''ESOCKETTIMEOUT'')), timeout := Some 0,
            destroyed := True, connects := [(js ''127.0.0.1'', 1086)]\<rparr>) []"
  by (simp add: proxy_attempt_def example_platform_def example_proxy_def default_to_def Let_def
      js_def ascii_lower_def connectWithoutProxyAsync_def await_def set_call_timeout_def
      setTimeout_def socket_connect_def new_socket_def destroy_def set_error_once_def
      removeAllListeners_def)

text \<open>
  C2 as stated fails: when the connect to the proxy times out, the error raised inside
  has the message \<open>ECONNECTTIMEOUT\<close> and the \<open>ProxyError\<close> has the message
  \<open>Error: ECONNECTTIMEOUT\<close>.
\<close>

theorem proxy_error_message_differs:
  "proxy_attempt example_platform example_options example_proxy new_socket [OnTimeout]
     = Rejected (JsError Error (js ''ECONNECTTIMEOUT''))
         (new_socket\<lparr>error := Some (JsError Error (js ''ESOCKETTIMEOUT'')), timeout := Some 0,
            destroyed := True, connects := [(js ''127.0.0.1'', 1086)]\<rparr>) []
   \<and> connectAsync example_platform example_options new_socket [OnTimeout]
     = Rejected (JsError ProxyError (js ''Error: ECONNECTTIMEOUT''))
         (new_socket\<lparr>error := Some (JsError Error (js ''ESOCKETTIMEOUT'')), timeout := Some 0,
            destroyed := True, connects := [(js ''127.0.0.1'', 1086)]\<rparr>) []
   \<and> message (JsError ProxyError (js ''Error: ECONNECTTIMEOUT''))
       \<noteq> message (JsError Error (js ''ECONNECTTIMEOUT''))"
proof -
  have "connectAsync example_platform example_options new_socket [OnTimeout]
     = Rejected (JsError ProxyError (js ''Error: ECONNECTTIMEOUT''))
         (new_socket\<lparr>error := Some (JsError Error (js ''ESOCKETTIMEOUT'')), timeout := Some 0,
            destroyed := True, connects := [(js ''127.0.0.1'', 1086)]\<rparr>) []"
  proof -
    have "proxy example_options = Some example_proxy"
      by (simp add: example_options_def)
    then show ?thesis
      by (simp add: connectAsync_def connectWithProxyAsync_def example_proxy_connect_timeout
          js_def)
  qed
  moreover have "message (JsError ProxyError (js ''Error: ECONNECTTIMEOUT''))
       \<noteq> message (JsError Error (js ''ECONNECTTIMEOUT''))"
    by (simp add: js_def)
  ultimately show ?thesis using example_proxy_connect_timeout by simp
qed

theorem proxy_errors_are_wrapped_witness:
  "connectAsync example_platform example_options new_socket [OnTimeout]
     = Rejected (JsError ProxyError (error_toString (JsError Error (js ''ECONNECTTIMEOUT''))))
         (new_socket\<lparr>error := Some (JsError Error (js ''ESOCKETTIMEOUT'')), timeout := Some 0,
            destroyed := True, connects := [(js ''127.0.0.1'', 1086)]\<rparr>) []
   \<and> suffix (js ''ECONNECTTIMEOUT'') (js ''Error: ECONNECTTIMEOUT'')
   \<and> connectAsync example_platform (example_options\<lparr>proxy := None\<rparr>) new_socket [OnEnd]
     = connectWithoutProxyAsync (example_options\<lparr>proxy := None\<rparr>) new_socket [OnEnd]
   \<and> connectAsync example_platform (example_options\<lparr>proxy := None\<rparr>) new_socket [OnEnd]
     = Rejected (JsError Error (js ''EENDFIN''))
         (new_socket\<lparr>error := Some (JsError Error (js ''EENDFIN'')), timeout := Some 0,
            destroyed := True, connects := [(js ''google.com'', 443)]\<rparr>) []
   \<and> cls (JsError Error (js ''EENDFIN'')) \<noteq> ProxyError"
proof -
  have p: "proxy example_options = Some example_proxy"
    and n: "proxy (example_options\<lparr>proxy := None\<rparr>) = None"
    by (simp_all add: example_options_def)
  have direct: "connectAsync example_platform (example_options\<lparr>proxy := None\<rparr>) new_socket [OnEnd]
     = Rejected (JsError Error (js ''EENDFIN''))
         (new_socket\<lparr>error := Some (JsError Error (js ''EENDFIN'')), timeout := Some 0,
            destroyed := True, connects := [(js ''google.com'', 443)]\<rparr>) []"
    by (simp add: connectAsync_def example_options_def connectWithoutProxyAsync_def Let_def
        set_call_timeout_def setTimeout_def socket_connect_def new_socket_def destroy_def
        set_error_once_def removeAllListeners_def)
  have clean: "\<forall>e0. OnError e0 \<in> set [OnEnd] \<longrightarrow> cls e0 \<noteq> ProxyError"
    by simp
  note w1 = proxy_errors_are_wrapped
    [of example_options example_proxy example_platform new_socket "[OnTimeout]"
        "JsError Error (js ''ECONNECTTIMEOUT'')"
        "new_socket\<lparr>error := Some (JsError Error (js ''ESOCKETTIMEOUT'')), timeout := Some 0,
            destroyed := True, connects := [(js ''127.0.0.1'', 1086)]\<rparr>" "[]"]
  note w2 = proxy_errors_are_wrapped
    [of "example_options\<lparr>proxy := None\<rparr>" example_proxy example_platform new_socket "[OnEnd]"
        _ _ _ _ _ _ "JsError Error (js ''EENDFIN'')"
        "new_socket\<lparr>error := Some (JsError Error (js ''EENDFIN'')), timeout := Some 0,
            destroyed := True, connects := [(js ''google.com'', 443)]\<rparr>" "[]"]
  from w1 p example_proxy_connect_timeout
  have a: "connectAsync example_platform example_options new_socket [OnTimeout]
     = Rejected (JsError ProxyError (error_toString (JsError Error (js ''ECONNECTTIMEOUT''))))
         (new_socket\<lparr>error := Some (JsError Error (js ''ESOCKETTIMEOUT'')), timeout := Some 0,
            destroyed := True, connects := [(js ''127.0.0.1'', 1086)]\<rparr>) []"
    and b: "suffix (message (JsError Error (js ''ECONNECTTIMEOUT'')))
              (error_toString (JsError Error (js ''ECONNECTTIMEOUT'')))"
    by blast+
  from w2 n direct clean
  have c: "connectAsync example_platform (example_options\<lparr>proxy := None\<rparr>) new_socket [OnEnd]
     = connectWithoutProxyAsync (example_options\<lparr>proxy := None\<rparr>) new_socket [OnEnd]"
    and d: "cls (JsError Error (js ''EENDFIN'')) \<noteq> ProxyError"
    by blast+
  from b have b': "suffix (js ''ECONNECTTIMEOUT'') (js ''Error: ECONNECTTIMEOUT'')"
    by (simp add: js_def)
  from a b' c d direct show ?thesis by simp
qed


section \<open>The request for the target\<close>

declare number_toString.simps [simp del] number_toString16.simps [simp del]

lemma byte_of_nat: "x < 256 \<Longrightarrow> unat (of_nat x :: byte) = x"
  by (simp add: unat_of_nat)

lemma hex_digits_table: "list_all (\<lambda>d. hex_value (hex_digit d) = Some d) [0..<16]"
  by code_simp

lemma hex_value_hex_digit: "d < 16 \<Longrightarrow> hex_value (hex_digit d) = Some d"
  using hex_digits_table by (simp add: list_all_iff)

lemma number_toString16_digit: "n < 16 \<Longrightarrow> number_toString16 n = [hex_digit n]"
  by (subst number_toString16.simps) simp

lemma number_toString16_step:
  "16 \<le> n \<Longrightarrow> number_toString16 n = number_toString16 (n div 16) @ [hex_digit (n mod 16)]"
  by (subst number_toString16.simps) simp

lemma number_toString16_two:
  assumes "16 \<le> n" "n < 256"
  shows "number_toString16 n = [hex_digit (n div 16), hex_digit (n mod 16)]"
proof -
  have "n div 16 < 16" using assms by simp
  then have "number_toString16 (n div 16) = [hex_digit (n div 16)]"
    by (rule number_toString16_digit)
  with number_toString16_step [OF assms(1)] show ?thesis by simp
qed

lemma number_toString16_three:
  assumes "256 \<le> n" "n < 4096"
  shows "number_toString16 n
           = [hex_digit (n div 256), hex_digit (n div 16 mod 16), hex_digit (n mod 16)]"
proof -
  have "16 \<le> n div 16" "n div 16 < 256" using assms by simp_all
  then have "number_toString16 (n div 16)
               = [hex_digit (n div 16 div 16), hex_digit (n div 16 mod 16)]"
    by (rule number_toString16_two)
  moreover have "n div 16 div 16 = n div 256" by (simp add: div_mult2_eq [symmetric])
  moreover have "16 \<le> n" using assms by simp
  ultimately show ?thesis using number_toString16_step [of n] by simp
qed

lemma number_toString16_four:
  assumes "4096 \<le> n" "n < 65536"
  shows "number_toString16 n
           = [hex_digit (n div 4096), hex_digit (n div 256 mod 16), hex_digit (n div 16 mod 16),
              hex_digit (n mod 16)]"
proof -
  have "256 \<le> n div 16" "n div 16 < 4096" using assms by simp_all
  then have "number_toString16 (n div 16)
               = [hex_digit (n div 16 div 256), hex_digit (n div 16 div 16 mod 16),
                  hex_digit (n div 16 mod 16)]"
    by (rule number_toString16_three)
  moreover have "n div 16 div 256 = n div 4096" "n div 16 div 16 = n div 256"
    by (simp_all add: div_mult2_eq [symmetric])
  moreover have "16 \<le> n" using assms by simp
  ultimately show ?thesis using number_toString16_step [of n] by simp
qed

lemma hex_digit_0: "hex_digit 0 = 0x30"
  by (simp add: hex_digit_def)

lemma zero_pad4_short:
  "length g \<le> 4 \<Longrightarrow> zero_pad4 g = Inr (replicate (4 - length g) 0x30 @ g)"
  by (cases "length g = 4") (auto simp add: zero_pad4_def array_join_zeros_def nat_diff_distrib')

lemma padded_port:
  assumes "p < 65536"
  shows "(if length (number_toString16 p) < 4 then zero_pad4 (number_toString16 p)
          else Inr (number_toString16 p))
         = Inr [hex_digit (p div 4096), hex_digit (p div 256 mod 16), hex_digit (p div 16 mod 16),
                hex_digit (p mod 16)]"
proof -
  consider "p < 16" | "16 \<le> p" "p < 256" | "256 \<le> p" "p < 4096" | "4096 \<le> p"
    by linarith
  then show ?thesis
  proof cases
    case 1
    then show ?thesis
      by (simp add: number_toString16_digit zero_pad4_short hex_digit_0 numeral_3_eq_3)
  next
    case 2
    then show ?thesis
      by (simp add: number_toString16_two zero_pad4_short hex_digit_0 numeral_2_eq_2)
  next
    case 3
    then have "p div 4096 = 0" "p div 256 mod 16 = p div 256" by simp_all
    with 3 show ?thesis
      by (simp add: number_toString16_three zero_pad4_short hex_digit_0)
  next
    case 4
    with assms show ?thesis
      by (simp add: number_toString16_four)
  qed
qed

lemma buffer_from_four_hex_digits:
  assumes "a < 16" "b < 16" "c < 16" "d < 16"
  shows "buffer_from_hex [hex_digit a, hex_digit b, hex_digit c, hex_digit d]
           = [of_nat (16 * a + b), of_nat (16 * c + d)]"
  using assms by (simp add: hex_value_hex_digit)

lemma port_bytes:
  assumes "p < 65536"
  shows "buffer_from_hex [hex_digit (p div 4096), hex_digit (p div 256 mod 16),
                          hex_digit (p div 16 mod 16), hex_digit (p mod 16)]
           = [of_nat (p div 256), of_nat (p mod 256)]"
proof -
  have "p div 4096 < 16" using assms by simp
  then have "buffer_from_hex [hex_digit (p div 4096), hex_digit (p div 256 mod 16),
                          hex_digit (p div 16 mod 16), hex_digit (p mod 16)]
      = [of_nat (16 * (p div 4096) + p div 256 mod 16), of_nat (16 * (p div 16 mod 16) + p mod 16)]"
    by (intro buffer_from_four_hex_digits) simp_all
  moreover have "16 * (p div 4096) + p div 256 mod 16 = p div 256"
  proof -
    have "p div 4096 = p div 256 div 16" by (simp add: div_mult2_eq [symmetric])
    then show ?thesis by (simp add: mult_div_mod_eq)
  qed
  moreover have "16 * (p div 16 mod 16) + p mod 16 = p mod 256"
    using mod_mult2_eq [of p 16 16] by simp
  ultimately show ?thesis by (simp only:)
qed

lemma port_of_port_bytes:
  "p < 65536 \<Longrightarrow> port_of_bytes [of_nat (p div 256), of_nat (p mod 256)] = p"
  by (simp add: port_of_bytes_def byte_of_nat)


lemma is_digit_nat: "is_digit c \<longleftrightarrow> 48 \<le> unat c \<and> unat c \<le> 57"
  by (simp add: is_digit_def word_le_nat_alt)

lemma number_toString_digit: "n < 10 \<Longrightarrow> number_toString n = [of_nat (48 + n)]"
  by (subst number_toString.simps) simp

lemma number_toString_step:
  "10 \<le> n \<Longrightarrow> number_toString n = number_toString (n div 10) @ [of_nat (48 + n mod 10)]"
  by (subst number_toString.simps) simp

lemma first_digit_not_zero: "(a :: code_unit) \<noteq> 0x30 \<Longrightarrow> unat a \<noteq> 48"
proof
  assume "a \<noteq> 0x30" and "unat a = 48"
  from this(2) have "of_nat (unat a) = (of_nat 48 :: code_unit)" by simp
  then have "a = 0x30" by simp
  with \<open>a \<noteq> 0x30\<close> show False by simp
qed

lemma number_toString_append_digit:
  assumes "1 \<le> w" "z < 10"
  shows "number_toString (10 * w + z) = number_toString w @ [of_nat (48 + z)]"
proof -
  have "10 \<le> 10 * w + z" using assms by simp
  then have "number_toString (10 * w + z)
      = number_toString ((10 * w + z) div 10) @ [of_nat (48 + (10 * w + z) mod 10)]"
    by (rule number_toString_step)
  moreover have "(10 * w + z) div 10 = w" "(10 * w + z) mod 10 = z" using assms by simp_all
  ultimately show ?thesis by (simp only:)
qed

lemma v4Seg_canonical:
  assumes "v4Seg seg"
  shows "number_toString (decimal_value seg) = seg"
proof -
  from assms have len: "seg \<noteq> []" "length seg \<le> 3" and digits: "list_all is_digit seg"
    and lead: "length seg = 1 \<or> hd seg \<noteq> 0x30"
    by (simp_all add: v4Seg_def)
  from len consider a where "seg = [a]" | a b where "seg = [a, b]" | a b c where "seg = [a, b, c]"
    by (cases seg rule: list.exhaust; cases "tl seg"; cases "tl (tl seg)"; cases "tl (tl (tl seg))")
      auto
  then show ?thesis
  proof cases
    case 1
    with digits have "48 \<le> unat a" "unat a \<le> 57" by (simp_all add: is_digit_nat)
    with 1 show ?thesis
      by (simp add: number_toString_digit)
  next
    case 2
    with digits have a: "48 \<le> unat a" "unat a \<le> 57" and b: "48 \<le> unat b" "unat b \<le> 57"
      by (simp_all add: is_digit_nat)
    from 2 lead have "a \<noteq> 0x30" by simp
    then have "unat a \<noteq> 48" by (rule first_digit_not_zero)
    with a have a': "49 \<le> unat a" by linarith
    define x where "x = unat a - 48"
    define y where "y = unat b - 48"
    have xy: "1 \<le> x" "x < 10" "y < 10" using a a' b by (simp_all add: x_def y_def)
    have ca: "of_nat (48 + x) = a" and cb: "of_nat (48 + y) = b"
      using a b by (simp_all add: x_def y_def)
    have v: "decimal_value seg = 10 * x + y" using 2 by (simp add: x_def y_def)
    have "number_toString (10 * x + y) = number_toString x @ [of_nat (48 + y)]"
      using xy by (intro number_toString_append_digit)
    also have "number_toString x = [of_nat (48 + x)]" using xy by (simp add: number_toString_digit)
    finally show ?thesis using 2 v ca cb by simp
  next
    case 3
    with digits have a: "48 \<le> unat a" "unat a \<le> 57" and b: "48 \<le> unat b" "unat b \<le> 57"
      and c: "48 \<le> unat c" "unat c \<le> 57"
      by (simp_all add: is_digit_nat)
    from 3 lead have "a \<noteq> 0x30" by simp
    then have "unat a \<noteq> 48" by (rule first_digit_not_zero)
    with a have a': "49 \<le> unat a" by linarith
    define x where "x = unat a - 48"
    define y where "y = unat b - 48"
    define z where "z = unat c - 48"
    define w where "w = 10 * x + y"
    have xy: "1 \<le> x" "x < 10" "y < 10" "z < 10" using a a' b c by (simp_all add: x_def y_def z_def)
    then have w: "1 \<le> w" by (simp add: w_def)
    have ca: "of_nat (48 + x) = a" and cb: "of_nat (48 + y) = b" and cc: "of_nat (48 + z) = c"
      using a b c by (simp_all add: x_def y_def z_def)
    have v: "decimal_value seg = 10 * w + z" using 3 by (simp add: x_def y_def z_def w_def)
    have "number_toString (10 * w + z) = number_toString w @ [of_nat (48 + z)]"
      using w xy by (intro number_toString_append_digit)
    also have "number_toString w = number_toString x @ [of_nat (48 + y)]"
      unfolding w_def using xy by (intro number_toString_append_digit)
    also have "number_toString x = [of_nat (48 + x)]" using xy by (simp add: number_toString_digit)
    finally show ?thesis using 3 v ca cb cc by simp
  qed
qed

lemma v4Seg_byte:
  assumes "v4Seg seg"
  shows "unat (array_item_to_byte seg) = decimal_value seg"
  using assms by (simp add: v4Seg_def array_item_to_byte_def byte_of_nat del: decimal_value.simps)

lemma split_on_not_Nil: "split_on sep s \<noteq> []"
  by (induction s) (auto split: list.splits)

lemma join_with_front: "join_with sep ((c # p) # ps) = c # join_with sep (p # ps)"
  by (cases ps) simp_all

lemma join_with_empty_front: "ps \<noteq> [] \<Longrightarrow> join_with sep ([] # ps) = sep # join_with sep ps"
  by (cases ps) simp_all

lemma join_with_split_on: "join_with sep (split_on sep s) = s"
proof (induction s)
  case Nil
  show ?case by simp
next
  case (Cons c s)
  show ?case
  proof (cases "c = sep")
    case True
    then show ?thesis by (simp add: join_with_empty_front split_on_not_Nil Cons.IH)
  next
    case False
    obtain p ps where ps: "split_on sep s = p # ps"
      using split_on_not_Nil [of sep s] by (cases "split_on sep s") auto
    with False Cons.IH show ?thesis by (simp add: join_with_front)
  qed
qed

lemma ipv4_round_trip:
  assumes "isIPv4 h"
  shows "ipv4_to_string (map array_item_to_byte (split_on 0x2E h)) = h"
    and "length (map array_item_to_byte (split_on 0x2E h)) = 4"
proof -
  from assms have segs: "list_all v4Seg (split_on 0x2E h)" and n: "length (split_on 0x2E h) = 4"
    by (simp_all add: isIPv4_def Let_def)
  have "map (\<lambda>b. number_toString (unat b)) (map array_item_to_byte (split_on 0x2E h))
          = split_on 0x2E h"
  proof -
    have "\<And>seg. seg \<in> set (split_on 0x2E h) \<Longrightarrow>
            number_toString (unat (array_item_to_byte seg)) = seg"
      using segs by (simp add: list_all_iff v4Seg_byte v4Seg_canonical del: decimal_value.simps)
    then show ?thesis by (simp add: map_idI comp_def)
  qed
  then show "ipv4_to_string (map array_item_to_byte (split_on 0x2E h)) = h"
    by (simp add: ipv4_to_string_def join_with_split_on)
  from n show "length (map array_item_to_byte (split_on 0x2E h)) = 4" by simp
qed


lemma hex_value_range: "hex_value c = Some x \<Longrightarrow> x < 16"
  by (auto simp add: hex_value_def word_le_nat_alt split: if_splits)

lemma hex_number_Cons:
  "hex_number (c # g) = foldl (\<lambda>acc c. 16 * acc + (case hex_value c of None \<Rightarrow> 0 | Some d \<Rightarrow> d))
                          (case hex_value c of None \<Rightarrow> 0 | Some d \<Rightarrow> d) g"
  by (simp add: hex_number_def)

lemma hex_value_zero: "hex_value 0x30 = Some 0"
  by (simp add: hex_value_def)

lemma hex_number_leading_zeros: "hex_number (replicate k 0x30 @ g) = hex_number g"
proof (induction k)
  case 0
  show ?case by simp
next
  case (Suc k)
  have "hex_number (replicate (Suc k) 0x30 @ g) = hex_number (0x30 # (replicate k 0x30 @ g))"
    by simp
  also have "\<dots> = hex_number (replicate k 0x30 @ g)"
    by (simp only: hex_number_Cons hex_value_zero option.case) (simp add: hex_number_def)
  finally show ?case using Suc.IH by simp
qed

lemma four_hex_digits:
  assumes "hex_value c1 = Some x1" "hex_value c2 = Some x2" "hex_value c3 = Some x3"
    "hex_value c4 = Some x4"
  shows "buffer_from_hex [c1, c2, c3, c4]
           = [of_nat (hex_number [c1, c2, c3, c4] div 256), of_nat (hex_number [c1, c2, c3, c4] mod 256)]"
    and "hex_number [c1, c2, c3, c4] < 65536"
proof -
  have r: "x1 < 16" "x2 < 16" "x3 < 16" "x4 < 16"
    using assms by (auto dest: hex_value_range)
  define hi where "hi = 16 * x1 + x2"
  define lo where "lo = 16 * x3 + x4"
  have lo16: "lo < 256" using r by (simp add: lo_def)
  have hi16: "hi < 256" using r by (simp add: hi_def)
  have v: "hex_number [c1, c2, c3, c4] = 256 * hi + lo"
    using assms by (simp add: hex_number_def hi_def lo_def)
  have "buffer_from_hex [c1, c2, c3, c4] = [of_nat hi, of_nat lo]"
    using assms by (simp add: hi_def lo_def)
  moreover have "(256 * hi + lo) div 256 = hi" "(256 * hi + lo) mod 256 = lo"
    using lo16 by simp_all
  ultimately show "buffer_from_hex [c1, c2, c3, c4]
           = [of_nat (hex_number [c1, c2, c3, c4] div 256), of_nat (hex_number [c1, c2, c3, c4] mod 256)]"
    by (simp only: v)
  show "hex_number [c1, c2, c3, c4] < 65536"
    using lo16 hi16 by (simp add: v)
qed

lemma hex_group_bytes:
  assumes "hex_group g"
  shows "buffer_from_hex (replicate (4 - length g) 0x30 @ g)
           = [of_nat (hex_number g div 256), of_nat (hex_number g mod 256)]"
    and "hex_number g < 65536"
proof -
  define padded where "padded = replicate (4 - length g) 0x30 @ g"
  have len: "length padded = 4" using assms by (simp add: padded_def hex_group_def)
  have hex: "list_all (\<lambda>c. hex_value c \<noteq> None) padded"
    using assms by (auto simp add: padded_def hex_group_def list_all_iff hex_value_zero)
  from len obtain c1 c2 c3 c4 where p: "padded = [c1, c2, c3, c4]"
    by (cases padded rule: list.exhaust; cases "tl padded"; cases "tl (tl padded)";
        cases "tl (tl (tl padded))"; cases "tl (tl (tl (tl padded)))") auto
  with hex obtain x1 x2 x3 x4 where x: "hex_value c1 = Some x1" "hex_value c2 = Some x2"
    "hex_value c3 = Some x3" "hex_value c4 = Some x4"
    by auto
  have same: "hex_number padded = hex_number g"
    unfolding padded_def by (rule hex_number_leading_zeros)
  from four_hex_digits [OF x] p same
  show "buffer_from_hex (replicate (4 - length g) 0x30 @ g)
           = [of_nat (hex_number g div 256), of_nat (hex_number g mod 256)]"
    and "hex_number g < 65536"
    by (simp_all add: padded_def)
qed

lemma group_values_of_group:
  "v < 65536 \<Longrightarrow>
   group_values (of_nat (v div 256) # of_nat (v mod 256) # rest) = v # group_values rest"
  by (simp add: byte_of_nat)

lemma ipv6_items_groups:
  assumes "list_all hex_group gs"
  shows "\<exists>bufs. ipv6_items gs = Inr bufs \<and> length (concat bufs) = 2 * length gs
           \<and> group_values (concat bufs) = map hex_number gs"
  using assms
proof (induction gs)
  case Nil
  show ?case by simp
next
  case (Cons g gs)
  then obtain bufs where b: "ipv6_items gs = Inr bufs" "length (concat bufs) = 2 * length gs"
    "group_values (concat bufs) = map hex_number gs"
    by auto
  from Cons.prems have g: "hex_group g" by simp
  then have pad: "zero_pad4 g = Inr (replicate (4 - length g) 0x30 @ g)"
    by (simp add: zero_pad4_short hex_group_def)
  let ?two = "[of_nat (hex_number g div 256), of_nat (hex_number g mod 256)] :: byte list"
  have "ipv6_items (g # gs) = Inr (?two # bufs)"
    using pad b(1) hex_group_bytes(1) [OF g] by simp
  moreover have "length (concat (?two # bufs)) = 2 * length (g # gs)"
    using b(2) by simp
  moreover have "group_values (concat (?two # bufs)) = map hex_number (g # gs)"
  proof -
    have "concat (?two # bufs)
            = of_nat (hex_number g div 256) # of_nat (hex_number g mod 256) # concat bufs"
      by simp
    then have "group_values (concat (?two # bufs)) = hex_number g # group_values (concat bufs)"
      by (simp only: group_values_of_group [OF hex_group_bytes(2) [OF g]])
    with b(3) show ?thesis by simp
  qed
  ultimately show ?case by blast
qed

lemma ipv6_full_form_groups:
  "ipv6_full_form h \<longleftrightarrow> length (split_on 0x3A h) = 8 \<and> list_all hex_group (split_on 0x3A h)"
  by (simp add: ipv6_full_form_def Let_def)


lemma utf8_encode_ascii:
  "unat c < 0x80 \<Longrightarrow> utf8_encode (c # cs) = of_nat (unat c) # utf8_encode cs"
  by simp

lemma utf8_encode_two:
  "0x80 \<le> unat c \<Longrightarrow> unat c < 0x800 \<Longrightarrow>
   utf8_encode (c # cs)
     = of_nat (0xC0 + unat c div 64) # of_nat (0x80 + unat c mod 64) # utf8_encode cs"
  by (simp add: Let_def)

lemma utf8_encode_three:
  "0x800 \<le> unat c \<Longrightarrow> unat c < 0xD800 \<or> 0xE000 \<le> unat c \<Longrightarrow>
   utf8_encode (c # cs)
     = of_nat (0xE0 + unat c div 4096) # of_nat (0x80 + unat c div 64 mod 64)
       # of_nat (0x80 + unat c mod 64) # utf8_encode cs"
  by (auto simp add: Let_def)

lemma utf8_encode_pair:
  "0xD800 \<le> unat c \<Longrightarrow> unat c < 0xDC00 \<Longrightarrow> 0xDC00 \<le> unat d \<Longrightarrow> unat d < 0xE000 \<Longrightarrow>
   utf8_encode (c # d # ds)
     = of_nat (0xF0 + (0x10000 + (unat c - 0xD800) * 1024 + (unat d - 0xDC00)) div 262144)
       # of_nat (0x80 + (0x10000 + (unat c - 0xD800) * 1024 + (unat d - 0xDC00)) div 4096 mod 64)
       # of_nat (0x80 + (0x10000 + (unat c - 0xD800) * 1024 + (unat d - 0xDC00)) div 64 mod 64)
       # of_nat (0x80 + (0x10000 + (unat c - 0xD800) * 1024 + (unat d - 0xDC00)) mod 64)
       # utf8_encode ds"
  by (simp add: Let_def)

lemma utf8_decode_ascii:
  "n < 0x80 \<Longrightarrow> utf8_decode (of_nat n # bs) = map_option ((#) (of_nat n)) (utf8_decode bs)"
  by (simp add: byte_of_nat)

lemma utf8_decode_two:
  assumes "unat b0 = 0xC0 + x" "x < 32" "unat b1 = 0x80 + y"
  shows "utf8_decode (b0 # b1 # bs) = map_option ((#) (of_nat (x * 64 + y))) (utf8_decode bs)"
proof -
  have n: "\<not> unat b0 < 0x80" "\<not> unat b0 < 0xC0" "unat b0 < 0xE0" using assms by simp_all
  have v: "(unat b0 - 0xC0) * 64 + (unat b1 - 0x80) = x * 64 + y" using assms by simp
  show ?thesis
    by (simp only: utf8_decode.simps Let_def n if_True if_False list.case v)
qed

lemma utf8_decode_three:
  assumes "unat b0 = 0xE0 + x" "x < 16" "unat b1 = 0x80 + y" "unat b2 = 0x80 + z"
  shows "utf8_decode (b0 # b1 # b2 # bs)
           = map_option ((#) (of_nat (x * 4096 + y * 64 + z))) (utf8_decode bs)"
proof -
  have n: "\<not> unat b0 < 0x80" "\<not> unat b0 < 0xC0" "\<not> unat b0 < 0xE0" "unat b0 < 0xF0"
    using assms by simp_all
  have v: "(unat b0 - 0xE0) * 4096 + (unat b1 - 0x80) * 64 + (unat b2 - 0x80)
             = x * 4096 + y * 64 + z"
    using assms by simp
  show ?thesis
    by (simp only: utf8_decode.simps Let_def n if_True if_False list.case v)
qed

lemma utf8_decode_four:
  assumes "unat b0 = 0xF0 + x" "unat b1 = 0x80 + y" "unat b2 = 0x80 + z" "unat b3 = 0x80 + w"
  shows "utf8_decode (b0 # b1 # b2 # b3 # bs)
     = map_option
         (\<lambda>units. of_nat (0xD800 + (x * 262144 + y * 4096 + z * 64 + w - 0x10000) div 1024)
                   # of_nat (0xDC00 + (x * 262144 + y * 4096 + z * 64 + w - 0x10000) mod 1024)
                   # units)
         (utf8_decode bs)"
proof -
  have n: "\<not> unat b0 < 0x80" "\<not> unat b0 < 0xC0" "\<not> unat b0 < 0xE0" "\<not> unat b0 < 0xF0"
    using assms by simp_all
  have v: "(unat b0 - 0xF0) * 262144 + (unat b1 - 0x80) * 4096 + (unat b2 - 0x80) * 64
             + (unat b3 - 0x80) = x * 262144 + y * 4096 + z * 64 + w"
    using assms by simp
  show ?thesis
    by (simp only: utf8_decode.simps Let_def n if_True if_False list.case v)
qed


lemma utf8_round_trip:
  "well_formed_utf16 h \<Longrightarrow> utf8_decode (utf8_encode h) = Some h"
proof (induction "length h" arbitrary: h rule: less_induct)
  case less
  show ?case
  proof (cases h)
    case Nil
    then show ?thesis by simp
  next
    case (Cons c cs)
    define n where "n = unat c"
    have n16: "n < 65536" unfolding n_def using unsigned_less [of c, where 'a = nat] by simp
    have c: "of_nat n = c" by (simp add: n_def)
    consider "n < 0x80" | "0x80 \<le> n" "n < 0x800"
      | "0x800 \<le> n" "n < 0xD800 \<or> 0xE000 \<le> n"
      | "0xD800 \<le> n" "n < 0xDC00" | "0xDC00 \<le> n" "n < 0xE000"
      by linarith
    then show ?thesis
    proof cases
      case 1
      with less.prems Cons have wf: "well_formed_utf16 cs" by (simp add: n_def)
      have ih: "utf8_decode (utf8_encode cs) = Some cs"
        using less.hyps [of cs] wf Cons by simp
      have "utf8_encode h = of_nat n # utf8_encode cs"
        using 1 Cons by (simp only: n_def utf8_encode_ascii)
      then have "utf8_decode (utf8_encode h)
                   = map_option ((#) (of_nat n)) (utf8_decode (utf8_encode cs))"
        using 1 by (simp only: utf8_decode_ascii)
      also have "\<dots> = Some (c # cs)" by (simp only: ih c option.map)
      finally show ?thesis using Cons by simp
    next
      case 2
      with less.prems Cons have wf: "well_formed_utf16 cs" by (simp add: n_def)
      have ih: "utf8_decode (utf8_encode cs) = Some cs"
        using less.hyps [of cs] wf Cons by simp
      have enc: "utf8_encode h
          = of_nat (0xC0 + n div 64) # of_nat (0x80 + n mod 64) # utf8_encode cs"
        using 2 Cons by (simp only: n_def utf8_encode_two)
      have x: "n div 64 < 32" using 2 by simp
      have b0: "unat (of_nat (0xC0 + n div 64) :: byte) = 0xC0 + n div 64"
        using x by (intro byte_of_nat) simp
      have b1: "unat (of_nat (0x80 + n mod 64) :: byte) = 0x80 + n mod 64"
        by (intro byte_of_nat) simp
      have v: "n div 64 * 64 + n mod 64 = n" by simp
      have "utf8_decode (utf8_encode h)
              = map_option ((#) (of_nat (n div 64 * 64 + n mod 64))) (utf8_decode (utf8_encode cs))"
        unfolding enc by (rule utf8_decode_two [OF b0 x b1])
      also have "\<dots> = Some (c # cs)" by (simp only: ih v c option.map)
      finally show ?thesis using Cons by simp
    next
      case 3
      with less.prems Cons have wf: "well_formed_utf16 cs" by (auto simp add: n_def)
      have ih: "utf8_decode (utf8_encode cs) = Some cs"
        using less.hyps [of cs] wf Cons by simp
      have enc: "utf8_encode h
          = of_nat (0xE0 + n div 4096) # of_nat (0x80 + n div 64 mod 64)
            # of_nat (0x80 + n mod 64) # utf8_encode cs"
        using 3 Cons by (simp only: n_def utf8_encode_three)
      have x: "n div 4096 < 16" using n16 by simp
      have b0: "unat (of_nat (0xE0 + n div 4096) :: byte) = 0xE0 + n div 4096"
        using x by (intro byte_of_nat) simp
      have b1: "unat (of_nat (0x80 + n div 64 mod 64) :: byte) = 0x80 + n div 64 mod 64"
        by (intro byte_of_nat) simp
      have b2: "unat (of_nat (0x80 + n mod 64) :: byte) = 0x80 + n mod 64"
        by (intro byte_of_nat) simp
      have v: "n div 4096 * 4096 + n div 64 mod 64 * 64 + n mod 64 = n"
      proof -
        have "n div 4096 = n div 64 div 64" by (simp add: div_mult2_eq [symmetric])
        define q where "q = n div 64"
        define A B C where "A = q div 64" and "B = q mod 64" and "C = n mod 64"
        have "q = 64 * A + B" "n = 64 * q + C"
          by (simp_all add: A_def B_def C_def q_def)
        then have "A * 4096 + B * 64 + C = n" by linarith
        then show ?thesis
          unfolding \<open>n div 4096 = n div 64 div 64\<close> A_def B_def C_def q_def .
      qed
      have "utf8_decode (utf8_encode h)
              = map_option ((#) (of_nat (n div 4096 * 4096 + n div 64 mod 64 * 64 + n mod 64)))
                  (utf8_decode (utf8_encode cs))"
        unfolding enc by (rule utf8_decode_three [OF b0 x b1 b2])
      also have "\<dots> = Some (c # cs)" by (simp only: ih v c option.map)
      finally show ?thesis using Cons by simp
    next
      case 4
      with less.prems Cons obtain d ds where cs: "cs = d # ds"
        and d: "0xDC00 \<le> unat d" "unat d < 0xE000" and wf: "well_formed_utf16 ds"
        by (auto simp add: n_def split: list.splits)
      define m where "m = unat d"
      have dm: "of_nat m = d" by (simp add: m_def)
      have ih: "utf8_decode (utf8_encode ds) = Some ds"
        using less.hyps [of ds] wf Cons cs by simp
      define hi where "hi = n - 0xD800"
      define lo where "lo = m - 0xDC00"
      have hilo: "hi < 1024" "lo < 1024" using 4 d by (simp_all add: hi_def lo_def m_def)
      define cp where "cp = 0x10000 + hi * 1024 + lo"
      have cp: "0x10000 \<le> cp" "cp < 0x110000" using hilo by (simp_all add: cp_def)
      have enc: "utf8_encode h
          = of_nat (0xF0 + cp div 262144) # of_nat (0x80 + cp div 4096 mod 64)
            # of_nat (0x80 + cp div 64 mod 64) # of_nat (0x80 + cp mod 64) # utf8_encode ds"
        using 4 d Cons cs
        by (simp only: cp_def hi_def lo_def m_def n_def utf8_encode_pair)
      have x: "cp div 262144 < 8" using cp by simp
      have b0: "unat (of_nat (0xF0 + cp div 262144) :: byte) = 0xF0 + cp div 262144"
        using x by (intro byte_of_nat) simp
      have b1: "unat (of_nat (0x80 + cp div 4096 mod 64) :: byte) = 0x80 + cp div 4096 mod 64"
        by (intro byte_of_nat) simp
      have b2: "unat (of_nat (0x80 + cp div 64 mod 64) :: byte) = 0x80 + cp div 64 mod 64"
        by (intro byte_of_nat) simp
      have b3: "unat (of_nat (0x80 + cp mod 64) :: byte) = 0x80 + cp mod 64"
        by (intro byte_of_nat) simp
      have v: "cp div 262144 * 262144 + cp div 4096 mod 64 * 4096 + cp div 64 mod 64 * 64
                 + cp mod 64 = cp"
      proof -
        have e: "cp div 4096 = cp div 64 div 64" "cp div 262144 = cp div 64 div 64 div 64"
          by (simp_all add: div_mult2_eq [symmetric])
        define q where "q = cp div 64"
        define r where "r = q div 64"
        define A B C D where "A = r div 64" and "B = r mod 64" and "C = q mod 64"
          and "D = cp mod 64"
        have "r = 64 * A + B" "q = 64 * r + C" "cp = 64 * q + D"
          by (simp_all add: A_def B_def C_def D_def q_def r_def)
        then have "A * 262144 + B * 4096 + C * 64 + D = cp" by linarith
        then show ?thesis
          unfolding e A_def B_def C_def D_def r_def q_def .
      qed
      have surr: "(cp - 0x10000) div 1024 = hi" "(cp - 0x10000) mod 1024 = lo"
        using hilo by (simp_all add: cp_def)
      have units: "of_nat (0xD800 + hi) = c" "of_nat (0xDC00 + lo) = d"
        using 4 d c dm by (simp_all add: hi_def lo_def m_def)
      have "utf8_decode (utf8_encode h)
              = map_option
                  (\<lambda>units.
                     of_nat (0xD800 + (cp div 262144 * 262144 + cp div 4096 mod 64 * 4096
                                       + cp div 64 mod 64 * 64 + cp mod 64 - 0x10000) div 1024)
                     # of_nat (0xDC00 + (cp div 262144 * 262144 + cp div 4096 mod 64 * 4096
                                         + cp div 64 mod 64 * 64 + cp mod 64 - 0x10000) mod 1024)
                     # units)
                  (utf8_decode (utf8_encode ds))"
        unfolding enc by (rule utf8_decode_four [OF b0 b1 b2 b3])
      also have "\<dots> = Some (c # d # ds)" by (simp only: ih v surr units option.map)
      finally show ?thesis using Cons cs by simp
    next
      case 5
      with less.prems Cons show ?thesis by (simp add: n_def)
    qed
  qed
qed


lemma net_isIP_4: "net_isIP P h = 4 \<longleftrightarrow> isIPv4 h"
  by (simp add: net_isIP_def)

lemma target_header: "buffer_from_hex (js ''050100'') = [0x05, 0x01, 0x00]"
  by (simp add: js_def hex_value_def)

lemma socks5_target_info_cases:
  assumes "p < 65536"
  shows "socks5_target_info P h p =
     (if net_isIP P h = 4
      then Inr ([0x05, 0x01, 0x00, 0x01] @ map array_item_to_byte (split_on 0x2E h)
                @ [of_nat (p div 256), of_nat (p mod 256)])
      else if net_isIP P h = 0
      then Inr ([0x05, 0x01, 0x00, 0x03, of_nat (length (utf8_encode h))] @ utf8_encode h
                @ [of_nat (p div 256), of_nat (p mod 256)])
      else if net_isIP P h = 6
      then (case ipv6_items (split_on 0x3A h) of
              Inl e \<Rightarrow> Inl e
            | Inr bufs \<Rightarrow> Inr ([0x05, 0x01, 0x00, 0x04] @ concat bufs
                              @ [of_nat (p div 256), of_nat (p mod 256)]))
      else Inl (JsError Error (js ''Not support target host: '' @ h)))"
  unfolding socks5_target_info_def Let_def padded_port [OF assms] sum.case port_bytes [OF assms]
    target_header
  by (simp split: sum.splits)

lemma parse_ipv4:
  "length addr = 4 \<Longrightarrow> p < 65536 \<Longrightarrow>
   socks5_parse_request ([0x05, 0x01, 0x00, 0x01] @ addr @ [of_nat (p div 256), of_nat (p mod 256)])
     = Some (IPv4 addr, p)"
  by (simp add: socks5_parse_request_def port_of_port_bytes)

lemma parse_domain:
  "length name \<le> 255 \<Longrightarrow> p < 65536 \<Longrightarrow>
   socks5_parse_request ([0x05, 0x01, 0x00, 0x03, of_nat (length name)] @ name
                         @ [of_nat (p div 256), of_nat (p mod 256)])
     = Some (Domain name, p)"
  by (simp add: socks5_parse_request_def port_of_port_bytes byte_of_nat)

lemma parse_ipv6:
  "length addr = 16 \<Longrightarrow> p < 65536 \<Longrightarrow>
   socks5_parse_request ([0x05, 0x01, 0x00, 0x04] @ addr @ [of_nat (p div 256), of_nat (p mod 256)])
     = Some (IPv6 addr, p)"
  by (simp add: socks5_parse_request_def port_of_port_bytes)

text \<open>
  C4, as amended. For a port below 65536: a host for which \<open>net.isIP\<close> answers 4 is
  encoded as \<open>05 01 00 01\<close>, its four address bytes and the port, and the reverse
  parse gives back these bytes and the port, and with them the host itself. A host
  for which it answers 0, with at most 255 bytes of UTF-8, is encoded as
  \<open>05 01 00 03\<close>, the length, the bytes and the port; the reverse parse gives back
  the bytes and the port, and the bytes decode to the host when it has no lone
  surrogate. A host of eight groups of one to four hexadecimal digits for which it
  answers 6 is encoded as \<open>05 01 00 04\<close>, sixteen bytes and the port; the reverse
  parse gives back the port and the values of the eight groups, so the host up to
  leading zeros and the case of the digits, not the string.
\<close>

theorem socks5_target_round_trip:
  "(net_isIP P h = 4 \<longrightarrow> p < 65536 \<longrightarrow>
      (\<exists>addr. length addr = 4
         \<and> socks5_target_info P h p
             = Inr ([0x05, 0x01, 0x00, 0x01] @ addr @ [of_nat (p div 256), of_nat (p mod 256)])
         \<and> socks5_parse_request
               ([0x05, 0x01, 0x00, 0x01] @ addr @ [of_nat (p div 256), of_nat (p mod 256)])
             = Some (IPv4 addr, p)
         \<and> ipv4_to_string addr = h))
   \<and> (net_isIP P h = 0 \<longrightarrow> length (utf8_encode h) \<le> 255 \<longrightarrow> p < 65536 \<longrightarrow>
      socks5_target_info P h p
        = Inr ([0x05, 0x01, 0x00, 0x03, of_nat (length (utf8_encode h))] @ utf8_encode h
               @ [of_nat (p div 256), of_nat (p mod 256)])
      \<and> socks5_parse_request
            ([0x05, 0x01, 0x00, 0x03, of_nat (length (utf8_encode h))] @ utf8_encode h
             @ [of_nat (p div 256), of_nat (p mod 256)])
          = Some (Domain (utf8_encode h), p)
      \<and> (well_formed_utf16 h \<longrightarrow> utf8_decode (utf8_encode h) = Some h))
   \<and> (net_isIP P h = 6 \<longrightarrow> ipv6_full_form h \<longrightarrow> p < 65536 \<longrightarrow>
      (\<exists>addr. length addr = 16
         \<and> socks5_target_info P h p
             = Inr ([0x05, 0x01, 0x00, 0x04] @ addr @ [of_nat (p div 256), of_nat (p mod 256)])
         \<and> socks5_parse_request
               ([0x05, 0x01, 0x00, 0x04] @ addr @ [of_nat (p div 256), of_nat (p mod 256)])
             = Some (IPv6 addr, p)
         \<and> group_values addr = map hex_number (split_on 0x3A h)
         \<and> ipv6_to_string addr
             = join_with 0x3A (map (\<lambda>g. number_toString16 (hex_number g)) (split_on 0x3A h))))"
proof (intro conjI impI)
  assume c: "net_isIP P h = 4" and p: "p < 65536"
  then have v4: "isIPv4 h" by (simp add: net_isIP_4)
  let ?addr = "map array_item_to_byte (split_on 0x2E h)"
  have "length ?addr = 4" by (rule ipv4_round_trip(2) [OF v4])
  moreover have "socks5_target_info P h p
      = Inr ([0x05, 0x01, 0x00, 0x01] @ ?addr @ [of_nat (p div 256), of_nat (p mod 256)])"
    using c by (simp add: socks5_target_info_cases [OF p])
  moreover have "socks5_parse_request
      ([0x05, 0x01, 0x00, 0x01] @ ?addr @ [of_nat (p div 256), of_nat (p mod 256)])
      = Some (IPv4 ?addr, p)"
    by (rule parse_ipv4 [OF ipv4_round_trip(2) [OF v4] p])
  moreover have "ipv4_to_string ?addr = h" by (rule ipv4_round_trip(1) [OF v4])
  ultimately show "\<exists>addr. length addr = 4
         \<and> socks5_target_info P h p
             = Inr ([0x05, 0x01, 0x00, 0x01] @ addr @ [of_nat (p div 256), of_nat (p mod 256)])
         \<and> socks5_parse_request
               ([0x05, 0x01, 0x00, 0x01] @ addr @ [of_nat (p div 256), of_nat (p mod 256)])
             = Some (IPv4 addr, p)
         \<and> ipv4_to_string addr = h"
    by blast
next
  assume c: "net_isIP P h = 0" and p: "p < 65536"
  then show "socks5_target_info P h p
        = Inr ([0x05, 0x01, 0x00, 0x03, of_nat (length (utf8_encode h))] @ utf8_encode h
               @ [of_nat (p div 256), of_nat (p mod 256)])"
    by (simp add: socks5_target_info_cases [OF p])
next
  assume "length (utf8_encode h) \<le> 255" and "p < 65536"
  then show "socks5_parse_request
            ([0x05, 0x01, 0x00, 0x03, of_nat (length (utf8_encode h))] @ utf8_encode h
             @ [of_nat (p div 256), of_nat (p mod 256)])
          = Some (Domain (utf8_encode h), p)"
    by (rule parse_domain)
next
  assume "well_formed_utf16 h"
  then show "utf8_decode (utf8_encode h) = Some h" by (rule utf8_round_trip)
next
  assume c: "net_isIP P h = 6" and full: "ipv6_full_form h" and p: "p < 65536"
  from full have n: "length (split_on 0x3A h) = 8" and gs: "list_all hex_group (split_on 0x3A h)"
    by (simp_all add: ipv6_full_form_groups)
  from ipv6_items_groups [OF gs] n obtain bufs where
    b: "ipv6_items (split_on 0x3A h) = Inr bufs" "length (concat bufs) = 16"
       "group_values (concat bufs) = map hex_number (split_on 0x3A h)"
    by auto
  have "socks5_target_info P h p
      = Inr ([0x05, 0x01, 0x00, 0x04] @ concat bufs @ [of_nat (p div 256), of_nat (p mod 256)])"
    using c b(1) by (simp add: socks5_target_info_cases [OF p])
  moreover have "socks5_parse_request
      ([0x05, 0x01, 0x00, 0x04] @ concat bufs @ [of_nat (p div 256), of_nat (p mod 256)])
      = Some (IPv6 (concat bufs), p)"
    by (rule parse_ipv6 [OF b(2) p])
  moreover have "ipv6_to_string (concat bufs)
      = join_with 0x3A (map (\<lambda>g. number_toString16 (hex_number g)) (split_on 0x3A h))"
    by (simp add: ipv6_to_string_def b(3) comp_def)
  ultimately show "\<exists>addr. length addr = 16
         \<and> socks5_target_info P h p
             = Inr ([0x05, 0x01, 0x00, 0x04] @ addr @ [of_nat (p div 256), of_nat (p mod 256)])
         \<and> socks5_parse_request
               ([0x05, 0x01, 0x00, 0x04] @ addr @ [of_nat (p div 256), of_nat (p mod 256)])
             = Some (IPv6 addr, p)
         \<and> group_values addr = map hex_number (split_on 0x3A h)
         \<and> ipv6_to_string addr
             = join_with 0x3A (map (\<lambda>g. number_toString16 (hex_number g)) (split_on 0x3A h))"
    using b(2,3) by blast
qed


lemma split_on_absent: "sep \<notin> set s \<Longrightarrow> split_on sep s = [s]"
  by (induction s) auto

lemma utf8_encode_replicate_a: "utf8_encode (replicate k 0x61) = replicate k 0x61"
  by (induction k) simp_all

lemma long_domain_class: "net_isIP example_platform (replicate 256 0x61) = 0"
proof -
  have "split_on 0x2E (replicate 256 (0x61 :: code_unit)) = [replicate 256 0x61]"
    by (rule split_on_absent) simp
  moreover have "split_on 0x3A (replicate 256 (0x61 :: code_unit)) = [replicate 256 0x61]"
    by (rule split_on_absent) simp
  ultimately show ?thesis
    by (simp add: net_isIP_def isIPv4_def example_platform_def ipv6_full_form_def Let_def)
qed

lemma lone_surrogate_class:
  "net_isIP example_platform [0xD800] = 0" "net_isIP example_platform [0xD801] = 0"
  by code_simp+

lemma lone_surrogate_bytes:
  "utf8_encode [0xD800] = [0xEF, 0xBF, 0xBD]" "utf8_encode [0xD801] = [0xEF, 0xBF, 0xBD]"
  by simp_all

lemma full_form_pair:
  "ipv6_full_form (js ''1050:0:0:0:5:600:300c:326b'')"
  "ipv6_full_form (js ''1050:0000:0000:0000:0005:0600:300C:326B'')"
  "net_isIP example_platform (js ''1050:0:0:0:5:600:300c:326b'') = 6"
  "net_isIP example_platform (js ''1050:0000:0000:0000:0005:0600:300C:326B'') = 6"
  by code_simp+

lemma full_form_pair_bytes:
  "socks5_target_info example_platform (js ''1050:0:0:0:5:600:300c:326b'') 443
     = Inr [0x05, 0x01, 0x00, 0x04, 0x10, 0x50, 0, 0, 0, 0, 0, 0, 0, 0x05, 0x06, 0, 0x30, 0x0C,
            0x32, 0x6B, 0x01, 0xBB]"
  "socks5_target_info example_platform (js ''1050:0000:0000:0000:0005:0600:300C:326B'') 443
     = Inr [0x05, 0x01, 0x00, 0x04, 0x10, 0x50, 0, 0, 0, 0, 0, 0, 0, 0x05, 0x06, 0, 0x30, 0x0C,
            0x32, 0x6B, 0x01, 0xBB]"
  by code_simp+

lemma full_form_pair_differs:
  "js ''1050:0:0:0:5:600:300c:326b'' \<noteq> js ''1050:0000:0000:0000:0005:0600:300C:326B''"
  by (simp add: js_def)

lemma port_443: "(443 :: nat) < 65536" "(of_nat (443 div 256) :: byte) = 0x01"
  "(of_nat (443 mod 256) :: byte) = 0xBB"
  by simp_all


text \<open>
  C4 as stated fails. The address of the comment in the source and the same address
  with its groups padded to four digits and in upper case are both of the full form,
  differ as strings and have the same encoding, so no reverse parse gives back both.
  Two hosts that are lone surrogates have the same encoding as well, and for a domain
  of 256 bytes the length byte is 0 and the reverse parse fails.
\<close>

theorem socks5_target_not_injective:
  "ipv6_full_form (js ''1050:0:0:0:5:600:300c:326b'')
   \<and> ipv6_full_form (js ''1050:0000:0000:0000:0005:0600:300C:326B'')
   \<and> net_isIP example_platform (js ''1050:0:0:0:5:600:300c:326b'') = 6
   \<and> net_isIP example_platform (js ''1050:0000:0000:0000:0005:0600:300C:326B'') = 6
   \<and> socks5_target_info example_platform (js ''1050:0:0:0:5:600:300c:326b'') 443
       = socks5_target_info example_platform (js ''1050:0000:0000:0000:0005:0600:300C:326B'') 443
   \<and> js ''1050:0:0:0:5:600:300c:326b'' \<noteq> js ''1050:0000:0000:0000:0005:0600:300C:326B''
   \<and> net_isIP example_platform [0xD800] = 0 \<and> net_isIP example_platform [0xD801] = 0
   \<and> socks5_target_info example_platform [0xD800] 443
       = socks5_target_info example_platform [0xD801] 443
   \<and> net_isIP example_platform (replicate 256 0x61) = 0
   \<and> socks5_target_info example_platform (replicate 256 0x61) 443
       = Inr ([0x05, 0x01, 0x00, 0x03, 0x00] @ replicate 256 0x61 @ [0x01, 0xBB])
   \<and> socks5_parse_request ([0x05, 0x01, 0x00, 0x03, 0x00] @ replicate 256 0x61 @ [0x01, 0xBB])
       = None"
proof -
  have same6: "socks5_target_info example_platform (js ''1050:0:0:0:5:600:300c:326b'') 443
       = socks5_target_info example_platform (js ''1050:0000:0000:0000:0005:0600:300C:326B'') 443"
    by (simp only: full_form_pair_bytes)
  have same0: "socks5_target_info example_platform [0xD800] 443
       = socks5_target_info example_platform [0xD801] 443"
    by (simp add: socks5_target_info_cases [OF port_443(1)] lone_surrogate_class
        lone_surrogate_bytes del: utf8_encode.simps)
  have long: "socks5_target_info example_platform (replicate 256 0x61) 443
       = Inr ([0x05, 0x01, 0x00, 0x03, 0x00] @ replicate 256 0x61 @ [0x01, 0xBB])"
    by (simp add: socks5_target_info_cases [OF port_443(1)] long_domain_class
        utf8_encode_replicate_a)
  have fails: "socks5_parse_request
                 ([0x05, 0x01, 0x00, 0x03, 0x00] @ replicate 256 0x61 @ [0x01, 0xBB]) = None"
    by (simp add: socks5_parse_request_def)
  from full_form_pair same6 full_form_pair_differs lone_surrogate_class same0 long_domain_class
    long fails
  show ?thesis by (intro conjI)
qed


theorem socks5_target_round_trip_witness:
  "(\<exists>addr. length addr = 4
      \<and> socks5_target_info example_platform (js ''192.168.0.1'') 80
          = Inr ([0x05, 0x01, 0x00, 0x01] @ addr @ [0x00, 0x50])
      \<and> socks5_parse_request ([0x05, 0x01, 0x00, 0x01] @ addr @ [0x00, 0x50])
          = Some (IPv4 addr, 80)
      \<and> ipv4_to_string addr = js ''192.168.0.1'')
   \<and> socks5_target_info example_platform (js ''google.com'') 443
       = Inr ([0x05, 0x01, 0x00, 0x03, 0x0A] @ utf8_encode (js ''google.com'') @ [0x01, 0xBB])
   \<and> socks5_parse_request
         ([0x05, 0x01, 0x00, 0x03, 0x0A] @ utf8_encode (js ''google.com'') @ [0x01, 0xBB])
       = Some (Domain (utf8_encode (js ''google.com'')), 443)
   \<and> utf8_decode (utf8_encode (js ''google.com'')) = Some (js ''google.com'')
   \<and> (\<exists>addr. length addr = 16
      \<and> socks5_target_info example_platform (js ''1050:0:0:0:5:600:300c:326b'') 443
          = Inr ([0x05, 0x01, 0x00, 0x04] @ addr @ [0x01, 0xBB])
      \<and> socks5_parse_request ([0x05, 0x01, 0x00, 0x04] @ addr @ [0x01, 0xBB])
          = Some (IPv6 addr, 443)
      \<and> group_values addr = [0x1050, 0, 0, 0, 5, 0x600, 0x300C, 0x326B])"
proof -
  have v4: "net_isIP example_platform (js ''192.168.0.1'') = 4" by code_simp
  have dom: "net_isIP example_platform (js ''google.com'') = 0"
    "length (utf8_encode (js ''google.com'')) \<le> 255"
    by code_simp+
  have wf: "well_formed_utf16 (js ''google.com'')"
    by (simp add: js_def)
  have p80: "(80 :: nat) < 65536" by simp
  have b80: "(of_nat (80 div 256) :: byte) = 0x00" "(of_nat (80 mod 256) :: byte) = 0x50"
    by simp_all
  have len: "(of_nat (length (utf8_encode (js ''google.com''))) :: byte) = 0x0A"
    by (simp add: js_def)
  have groups: "map hex_number (split_on 0x3A (js ''1050:0:0:0:5:600:300c:326b''))
                  = [0x1050, 0, 0, 0, 5, 0x600, 0x300C, 0x326B]"
    by (simp add: js_def hex_number_def hex_value_def)
  note a = socks5_target_round_trip [of example_platform "js ''192.168.0.1''" 80,
      THEN conjunct1, rule_format, OF v4 p80]
  note b = socks5_target_round_trip [of example_platform "js ''google.com''" 443,
      THEN conjunct2, THEN conjunct1, rule_format, OF dom(1) dom(2) port_443(1)]
  note c = socks5_target_round_trip [of example_platform "js ''1050:0:0:0:5:600:300c:326b''" 443,
      THEN conjunct2, THEN conjunct2, rule_format, OF full_form_pair(3) full_form_pair(1)
      port_443(1)]
  from a have first: "\<exists>addr. length addr = 4
      \<and> socks5_target_info example_platform (js ''192.168.0.1'') 80
          = Inr ([0x05, 0x01, 0x00, 0x01] @ addr @ [0x00, 0x50])
      \<and> socks5_parse_request ([0x05, 0x01, 0x00, 0x01] @ addr @ [0x00, 0x50])
          = Some (IPv4 addr, 80)
      \<and> ipv4_to_string addr = js ''192.168.0.1''"
    unfolding b80 .
  from b have whole: "socks5_target_info example_platform (js ''google.com'') 443
       = Inr ([0x05, 0x01, 0x00, 0x03, 0x0A] @ utf8_encode (js ''google.com'') @ [0x01, 0xBB])
     \<and> socks5_parse_request
         ([0x05, 0x01, 0x00, 0x03, 0x0A] @ utf8_encode (js ''google.com'') @ [0x01, 0xBB])
       = Some (Domain (utf8_encode (js ''google.com'')), 443)
     \<and> (well_formed_utf16 (js ''google.com'')
         \<longrightarrow> utf8_decode (utf8_encode (js ''google.com'')) = Some (js ''google.com''))"
    unfolding port_443 len .
  note second = whole [THEN conjunct1]
  note third = whole [THEN conjunct2, THEN conjunct1]
  note fourth = whole [THEN conjunct2, THEN conjunct2]
  from fourth wf
  have decoded: "utf8_decode (utf8_encode (js ''google.com'')) = Some (js ''google.com'')"
    by (rule mp)
  from c have fifth: "\<exists>addr. length addr = 16
      \<and> socks5_target_info example_platform (js ''1050:0:0:0:5:600:300c:326b'') 443
          = Inr ([0x05, 0x01, 0x00, 0x04] @ addr @ [0x01, 0xBB])
      \<and> socks5_parse_request ([0x05, 0x01, 0x00, 0x04] @ addr @ [0x01, 0xBB])
          = Some (IPv6 addr, 443)
      \<and> group_values addr = [0x1050, 0, 0, 0, 5, 0x600, 0x300C, 0x326B]"
    unfolding port_443 groups by blast
  from first second third decoded fifth show ?thesis by (intro conjI)
qed

end
